theory Spec2Isabelle
  imports Main "HOL-Library.AList" "HOL-Library.Sublist"
begin

section \<open>Payload values\<close>

text \<open>
  The platform returns JSON. Numbers are modelled as integers (printed in plain decimal,
  which is what JavaScript does for integers of magnitude below \<open>10^21\<close>); fractional numbers
  and \<open>NaN\<close> do not occur in the model. An absent property (\<open>undefined\<close>) is
  \<open>None\<close> of a property lookup.
\<close>

datatype json =
    JNull
  | JBool bool
  | JNum int
  | JStr string
  | JArr "json list"
  | JObj "(string \<times> json) list"

text \<open>JavaScript truthiness, as used by \<^verbatim>\<open>if (json.user_id)\<close>.\<close>

fun truthy :: "json \<Rightarrow> bool" where
  "truthy JNull = False"
| "truthy (JBool b) = b"
| "truthy (JNum n) = (n \<noteq> 0)"
| "truthy (JStr s) = (s \<noteq> [])"
| "truthy (JArr xs) = True"
| "truthy (JObj kvs) = True"

fun truthyOpt :: "json option \<Rightarrow> bool" where
  "truthyOpt None = False"
| "truthyOpt (Some v) = truthy v"

text \<open>Property access \<^verbatim>\<open>v.key\<close> for a key that is no built-in property of strings or arrays.
  An object lists each of its keys once.\<close>

fun field :: "json \<Rightarrow> string \<Rightarrow> json option" where
  "field (JObj kvs) k = map_of kvs k"
| "field v k = None"

fun showNat :: "nat \<Rightarrow> string" where
  "showNat n =
     (if n < 10 then [''0123456789'' ! n]
      else showNat (n div 10) @ [''0123456789'' ! (n mod 10)])"

declare showNat.simps [simp del]

definition showInt :: "int \<Rightarrow> string" where
  "showInt i = (if i < 0 then CHR ''-'' # showNat (nat (- i)) else showNat (nat i))"

fun join :: "string \<Rightarrow> string list \<Rightarrow> string" where
  "join sep [] = []"
| "join sep [x] = x"
| "join sep (x # y # ys) = x @ sep @ join sep (y # ys)"

text \<open>\<^verbatim>\<open>String(v)\<close>: an array prints its elements joined by commas, \<open>null\<close> elements as
  the empty string; an object prints as \<^verbatim>\<open>[object Object]\<close>.\<close>

fun jsString :: "json \<Rightarrow> string" where
  "jsString JNull = ''null''"
| "jsString (JBool b) = (if b then ''true'' else ''false'')"
| "jsString (JNum n) = showInt n"
| "jsString (JStr s) = s"
| "jsString (JArr xs) = join '','' (map (\<lambda>x. if x = JNull then [] else jsString x) xs)"
| "jsString (JObj kvs) = ''[object Object]''"

section \<open>Executions and workflows (n8n-client.ts)\<close>

text \<open>One output item \<^verbatim>\<open>{ json, binary? }\<close>; the core reads \<open>json\<close> only. An absent
  \<open>json\<close> is \<open>JNull\<close> here (both are falsy).\<close>

record item =
  i_json :: json

text \<open>\<^verbatim>\<open>N8nNodeExecutionData\<close>: \<open>r_main\<close> is \<^verbatim>\<open>run.data?.main\<close>, \<open>None\<close> when
  \<open>data\<close> or \<open>main\<close> is missing.\<close>

record nodeRun =
  r_startTime :: int
  r_main :: "item list list option"

text \<open>\<^verbatim>\<open>N8nExecution\<close>. \<open>e_startedAt\<close> is \<^verbatim>\<open>new Date(startedAt).getTime()\<close> in
  milliseconds, \<open>None\<close> for \<open>NaN\<close> (a missing or unparsable date). \<open>e_runData\<close> is
  \<^verbatim>\<open>data?.resultData?.runData\<close> with its entries in the iteration order of
  \<^verbatim>\<open>Object.entries\<close>; \<open>None\<close> when a link of the chain is missing.\<close>

record execution =
  e_id :: string
  e_startedAt :: "int option"
  e_workflowId :: string
  e_runData :: "(string \<times> nodeRun list) list option"

record user_context =
  userId :: "string option"
  chatId :: "string option"
  correlationId :: "string option"
  responseId :: "string option"

definition noContext :: user_context where
  "noContext = \<lparr>userId = None, chatId = None, correlationId = None, responseId = None\<rparr>"

text \<open>\<^verbatim>\<open>run.data?.main?.[0]?.[0]\<close>\<close>

definition mainOutput :: "nodeRun \<Rightarrow> item option" where
  "mainOutput run =
     (case r_main run of
        None \<Rightarrow> None
      | Some rows \<Rightarrow>
          (case rows of
             [] \<Rightarrow> None
           | row # _ \<Rightarrow> (case row of [] \<Rightarrow> None | it # _ \<Rightarrow> Some it)))"

text \<open>The four conditional assignments from one object (the payload, then its \<open>body\<close>).\<close>

definition readIds :: "json \<Rightarrow> user_context \<Rightarrow> user_context" where
  "readIds obj r =
     (let r1 = (if truthyOpt (field obj ''user_id'')
                then r\<lparr>userId := map_option jsString (field obj ''user_id'')\<rparr> else r);
          r2 = (if truthyOpt (field obj ''chat_id'')
                then r1\<lparr>chatId := map_option jsString (field obj ''chat_id'')\<rparr> else r1);
          r3 = (if truthyOpt (field obj ''correlation_id'')
                then r2\<lparr>correlationId := map_option jsString (field obj ''correlation_id'')\<rparr> else r2)
      in (if truthyOpt (field obj ''response_id'')
          then r3\<lparr>responseId := map_option jsString (field obj ''response_id'')\<rparr> else r3))"

definition readPayload :: "json \<Rightarrow> user_context \<Rightarrow> user_context" where
  "readPayload js r =
     (let r1 = readIds js r
      in (case field js ''body'' of
            None \<Rightarrow> r1
          | Some body \<Rightarrow> if truthy body then readIds body r1 else r1))"

text \<open>\<^verbatim>\<open>result.userId || result.chatId\<close>: a field holding the empty string is falsy.\<close>

definition truthyStr :: "string option \<Rightarrow> bool" where
  "truthyStr s = (s \<noteq> None \<and> s \<noteq> Some [])"

definition found :: "user_context \<Rightarrow> bool" where
  "found r = (truthyStr (userId r) \<or> truthyStr (chatId r))"

text \<open>The two nested loops of \<open>extractUserContext\<close>. \<open>Inl r\<close> is the early
  \<^verbatim>\<open>return result\<close>, \<open>Inr r\<close> is falling out of the loop with the accumulated \<open>r\<close>.\<close>

fun scanRuns :: "nodeRun list \<Rightarrow> user_context \<Rightarrow> user_context + user_context" where
  "scanRuns [] r = Inr r"
| "scanRuns (run # runs) r =
     (case mainOutput run of
        None \<Rightarrow> scanRuns runs r
      | Some it \<Rightarrow>
          if truthy (i_json it)
          then (let r' = readPayload (i_json it) r
                in if found r' then Inl r' else scanRuns runs r')
          else scanRuns runs r)"

fun scanNodes :: "(string \<times> nodeRun list) list \<Rightarrow> user_context \<Rightarrow> user_context + user_context" where
  "scanNodes [] r = Inr r"
| "scanNodes ((nodeName, nodeRuns) # rest) r =
     (case scanRuns nodeRuns r of
        Inl r' \<Rightarrow> Inl r'
      | Inr r' \<Rightarrow> scanNodes rest r')"

definition extractUserContext :: "execution \<Rightarrow> user_context" where
  "extractUserContext e =
     (case e_runData e of
        None \<Rightarrow> noContext
      | Some runData \<Rightarrow>
          (case scanNodes runData noContext of Inl r \<Rightarrow> r | Inr r \<Rightarrow> r))"

text \<open>\<^verbatim>\<open>N8nNode\<close> and \<^verbatim>\<open>N8nWorkflow\<close>, with the fields the core reads.
  \<open>n_parameters\<close> and \<open>w_nodes\<close> are optional at run time.\<close>

record node =
  n_type :: string
  n_parameters :: "json option"

record workflow =
  w_id :: string
  w_name :: string
  w_nodes :: "node list option"

text \<open>What a call can throw: a failure reported by the platform (any rejected request),
  the \<^verbatim>\<open>Error\<close> of \<open>validateId\<close>, and the two exceptions JavaScript itself raises on
  the paths below.\<close>

datatype error =
    ApiError string
  | InvalidId string
  | TypeError
  | RangeError

text \<open>\<open>extractWebhookPaths\<close>. The path is cast \<^verbatim>\<open>as string\<close>; a truthy value that is no
  string has no \<open>startsWith\<close> method, which is a \<open>TypeError\<close>.\<close>

fun webhookPathsFrom :: "node list \<Rightarrow> string list \<Rightarrow> error + string list" where
  "webhookPathsFrom [] paths = Inr paths"
| "webhookPathsFrom (nd # nodes) paths =
     (if n_type nd = ''n8n-nodes-base.webhook''
      then (case (case n_parameters nd of None \<Rightarrow> None | Some ps \<Rightarrow> field ps ''path'') of
              None \<Rightarrow> webhookPathsFrom nodes paths
            | Some p \<Rightarrow>
                if truthy p
                then (case p of
                        JStr s \<Rightarrow>
                          webhookPathsFrom nodes
                            (paths @ [if prefix ''/'' s then s else ''/'' @ s])
                      | _ \<Rightarrow> Inl TypeError)
                else webhookPathsFrom nodes paths)
      else webhookPathsFrom nodes paths)"

definition extractWebhookPaths :: "workflow \<Rightarrow> error + string list" where
  "extractWebhookPaths workflow =
     (case w_nodes workflow of None \<Rightarrow> Inr [] | Some nodes \<Rightarrow> webhookPathsFrom nodes [])"

definition hasSubWorkflowTrigger :: "workflow \<Rightarrow> bool" where
  "hasSubWorkflowTrigger workflow =
     (case w_nodes workflow of
        None \<Rightarrow> False
      | Some nodes \<Rightarrow> list_ex (\<lambda>n. n_type n = ''n8n-nodes-base.executeWorkflowTrigger'') nodes)"

text \<open>One entry of \<open>extractHttpCalls\<close>; \<open>c_url\<close> is \<^verbatim>\<open>json.url || json.requestUrl\<close> as the
  payload holds it (the cast \<^verbatim>\<open>as string\<close> changes nothing at run time).\<close>

record http_call =
  c_nodeName :: string
  c_url :: json
  c_method :: json
  c_timestamp :: int

definition orElse :: "json option \<Rightarrow> json option \<Rightarrow> json option" where
  "orElse a b = (if truthyOpt a then a else b)"

definition callsOfRun :: "string \<Rightarrow> nodeRun \<Rightarrow> http_call list" where
  "callsOfRun nodeName run =
     (case mainOutput run of
        None \<Rightarrow> []
      | Some it \<Rightarrow>
          if truthy (i_json it)
          then (case orElse (field (i_json it) ''url'') (field (i_json it) ''requestUrl'') of
                  None \<Rightarrow> []
                | Some u \<Rightarrow>
                    if truthy u
                    then [\<lparr>c_nodeName = nodeName, c_url = u,
                           c_method = (case orElse (field (i_json it) ''method'') (Some (JStr ''GET'')) of
                                         None \<Rightarrow> JStr ''GET'' | Some m \<Rightarrow> m),
                           c_timestamp = r_startTime run\<rparr>]
                    else [])
          else [])"

definition extractHttpCalls :: "execution \<Rightarrow> http_call list" where
  "extractHttpCalls e =
     (case e_runData e of
        None \<Rightarrow> []
      | Some runData \<Rightarrow>
          concat (map (\<lambda>(nodeName, nodeRuns). concat (map (callsOfRun nodeName) nodeRuns)) runData))"

section \<open>The platform and the requests sent to it\<close>

text \<open>The data source answers each request with a failure or a value; for one search it is
  a fixed table of answers. The requests the client sends are recorded in order: they are
  the effect of the \<^verbatim>\<open>await\<close>s of the core.\<close>

record api =
  workflowsOf :: "error + workflow list"
  workflowOf :: "string \<Rightarrow> error + workflow"
  executionsOf :: "string \<Rightarrow> nat \<Rightarrow> error + execution list"
  executionOf :: "string \<Rightarrow> error + execution"

datatype request =
    ListWorkflows
  | GetWorkflow string
  | ListExecutions string nat
  | GetExecution string

text \<open>\<open>validateId\<close> of the validator: the test of \<^verbatim>\<open>/^[a-zA-Z0-9_-]+$/\<close>, then the two checks
  of the length, each throwing an \<open>Error\<close> with its message.\<close>

definition idChar :: "char \<Rightarrow> bool" where
  "idChar c =
     (let k = of_char c :: nat
      in (97 \<le> k \<and> k \<le> 122) \<or> (65 \<le> k \<and> k \<le> 90) \<or> (48 \<le> k \<and> k \<le> 57)
         \<or> c = CHR ''_'' \<or> c = CHR ''-'')"

definition validateId :: "string \<Rightarrow> string \<Rightarrow> error option" where
  "validateId ident idType =
     (if \<not> (ident \<noteq> [] \<and> list_all idChar ident)
      then Some (InvalidId (''Invalid '' @ idType @ '': contains disallowed characters. ''
                   @ ''Only alphanumeric, hyphens, and underscores are permitted.''))
      else if length ident > 100
      then Some (InvalidId (''Invalid '' @ idType @ '': exceeds maximum length of 100 characters''))
      else if length ident = 0
      then Some (InvalidId (''Invalid '' @ idType @ '': cannot be empty''))
      else None)"

text \<open>The client's four requests: the log of requests after the call, and the answer.\<close>

definition listWorkflows :: "api \<Rightarrow> request list \<Rightarrow> request list \<times> (error + workflow list)" where
  "listWorkflows a log = (log @ [ListWorkflows], workflowsOf a)"

definition getWorkflow :: "api \<Rightarrow> string \<Rightarrow> request list \<Rightarrow> request list \<times> (error + workflow)" where
  "getWorkflow a workflowId log =
     (case validateId workflowId ''Workflow ID'' of
        Some err \<Rightarrow> (log, Inl err)
      | None \<Rightarrow> (log @ [GetWorkflow workflowId], workflowOf a workflowId))"

definition listExecutions ::
  "api \<Rightarrow> string \<Rightarrow> nat \<Rightarrow> request list \<Rightarrow> request list \<times> (error + execution list)" where
  "listExecutions a workflowId limit log =
     (log @ [ListExecutions workflowId limit], executionsOf a workflowId limit)"

definition getExecution :: "api \<Rightarrow> string \<Rightarrow> request list \<Rightarrow> request list \<times> (error + execution)" where
  "getExecution a executionId log =
     (case validateId executionId ''Execution ID'' of
        Some err \<Rightarrow> (log, Inl err)
      | None \<Rightarrow> (log @ [GetExecution executionId], executionOf a executionId))"

section \<open>Confidence values\<close>

text \<open>
  A confidence is an IEEE-754 binary64 number. The literals the program adds are multiples of
  \<open>2^-56\<close>, and so is every sum of them; all lie in \<open>[0, 2)\<close>. A confidence is modelled by
  that multiple, exactly, and \<open>+\<close> is the exact sum rounded to 53 significant bits, ties to
  even, as binary64 addition rounds.
\<close>

type_synonym double = nat

text \<open>The number of low bits of \<open>n\<close> that do not fit a significand of 53 bits.\<close>

fun excess :: "nat \<Rightarrow> nat" where
  "excess n = (if n < 2 ^ 53 then 0 else Suc (excess (n div 2)))"

declare excess.simps [simp del]

definition round53 :: "nat \<Rightarrow> double" where
  "round53 n =
     (let k = excess n; q = n div 2 ^ k; r = n mod 2 ^ k
      in if 2 ^ k < 2 * r \<or> (2 * r = 2 ^ k \<and> odd q) then (q + 1) * 2 ^ k
         else q * 2 ^ k)"

definition fadd :: "double \<Rightarrow> double \<Rightarrow> double" where
  "fadd a b = round53 (a + b)"

text \<open>The literals \<^verbatim>\<open>0.1\<close>, \<^verbatim>\<open>0.2\<close>, \<^verbatim>\<open>0.3\<close>, \<^verbatim>\<open>0.4\<close>, \<^verbatim>\<open>0.5\<close>, \<^verbatim>\<open>0.9\<close>, \<^verbatim>\<open>1.0\<close>: the binary64
  number nearest to each decimal, in units of \<open>2^-56\<close>.\<close>

definition d0_1 :: double where "d0_1 = 7205759403792794"
definition d0_2 :: double where "d0_2 = 14411518807585588"
definition d0_3 :: double where "d0_3 = 21617278211378380"
definition d0_4 :: double where "d0_4 = 28823037615171176"
definition d0_5 :: double where "d0_5 = 36028797018963968"
definition d0_9 :: double where "d0_9 = 64851834634135144"
definition d1_0 :: double where "d1_0 = 72057594037927936"

section \<open>The correlator (correlator.ts)\<close>

record correlation_result =
  cr_execution :: execution
  cr_parentId :: string
  cr_confidence :: double
  cr_method :: string

record webhook_mapping =
  m_path :: string
  m_workflowId :: string
  m_workflowName :: string

text \<open>\<^verbatim>\<open>Math.abs(candidateStart - t)\<close>; \<open>None\<close> is \<open>NaN\<close>, and every comparison with it
  is false.\<close>

definition timeDiffOf :: "int option \<Rightarrow> int \<Rightarrow> int option" where
  "timeDiffOf candidateStart t = map_option (\<lambda>c. \<bar>c - t\<bar>) candidateStart"

definition below :: "int option \<Rightarrow> int \<Rightarrow> bool" where
  "below d bound = (case d of None \<Rightarrow> False | Some x \<Rightarrow> x < bound)"

text \<open>\<^verbatim>\<open>s.split('-')\<close>\<close>

fun splitOn :: "char \<Rightarrow> string \<Rightarrow> string list" where
  "splitOn sep [] = [[]]"
| "splitOn sep (c # cs) =
     (if c = sep then [] # splitOn sep cs
      else (case splitOn sep cs of
              [] \<Rightarrow> [[c]]
            | w # ws \<Rightarrow> (c # w) # ws))"

definition responsePattern :: "string \<Rightarrow> string" where
  "responsePattern s = join ''-'' (take 2 (splitOn CHR ''-'' s))"

text \<open>\<^verbatim>\<open>parentContext.userId && candidateContext.userId === parentContext.userId\<close>\<close>

definition sameId :: "string option \<Rightarrow> string option \<Rightarrow> bool" where
  "sameId parentValue candidateValue = (truthyStr parentValue \<and> candidateValue = parentValue)"

definition samePattern :: "string option \<Rightarrow> string option \<Rightarrow> bool" where
  "samePattern parentValue candidateValue =
     (case (parentValue, candidateValue) of
        (Some p, Some c) \<Rightarrow> p \<noteq> [] \<and> c \<noteq> [] \<and> responsePattern p = responsePattern c
      | _ \<Rightarrow> False)"

record score =
  confidence :: double
  method_label :: string

text \<open>\<open>scoreCorrelation\<close>: the pair (confidence, methods) is threaded through the
  additions in the order of the source.\<close>

definition bump :: "bool \<Rightarrow> double \<Rightarrow> string \<Rightarrow> double \<times> string list \<Rightarrow> double \<times> string list" where
  "bump cond w name acc = (if cond then (fadd (fst acc) w, snd acc @ [name]) else acc)"

definition webhookTimeBonus :: "int option \<Rightarrow> double \<times> string list \<Rightarrow> double \<times> string list" where
  "webhookTimeBonus timeDiff acc =
     (if below timeDiff 500 then bump True d0_3 ''timestamp_exact'' acc
      else if below timeDiff 2000 then bump True d0_2 ''timestamp_close'' acc
      else if below timeDiff 5000 then bump True d0_1 ''timestamp'' acc
      else acc)"

definition scoreCorrelation ::
  "execution \<Rightarrow> execution \<Rightarrow> user_context \<Rightarrow> http_call \<Rightarrow> score" where
  "scoreCorrelation parent candidate parentContext httpCall =
     (let a0 = bump True d0_3 ''webhook_url'' (0, []);
          timeDiff = timeDiffOf (e_startedAt candidate) (c_timestamp httpCall);
          a1 = webhookTimeBonus timeDiff a0;
          candidateContext = extractUserContext candidate;
          a2 = bump (sameId (userId parentContext) (userId candidateContext)) d0_3 ''user_id'' a1;
          a3 = bump (sameId (chatId parentContext) (chatId candidateContext)) d0_2 ''chat_id'' a2;
          a4 = bump (sameId (correlationId parentContext) (correlationId candidateContext))
                 d0_5 ''correlation_id'' a3;
          a5 = bump (samePattern (responseId parentContext) (responseId candidateContext))
                 d0_1 ''response_pattern'' a4
      in \<lparr>confidence = min (fst a5) d1_0, method_label = join ''+'' (snd a5)\<rparr>)"

text \<open>The scoring inlined in the sub-workflow pass.\<close>

definition subTimeBonus :: "int option \<Rightarrow> double \<times> string list \<Rightarrow> double \<times> string list" where
  "subTimeBonus timeDiff acc =
     (if below timeDiff 2000 then bump True d0_3 ''timestamp'' acc
      else if below timeDiff 5000 then bump True d0_2 ''timestamp'' acc
      else acc)"

definition subWorkflowScore :: "int \<Rightarrow> execution \<Rightarrow> user_context \<Rightarrow> score" where
  "subWorkflowScore execStart candidate userContext =
     (let candidateContext = extractUserContext candidate;
          timeDiff = timeDiffOf (e_startedAt candidate) execStart;
          a1 = subTimeBonus timeDiff (0, []);
          a2 = bump (sameId (userId userContext) (userId candidateContext)) d0_4 ''user_id'' a1;
          a3 = bump (sameId (chatId userContext) (chatId candidateContext)) d0_3 ''chat_id'' a2
      in \<lparr>confidence = fst a3, method_label = join ''+'' (snd a3)\<rparr>)"

text \<open>
  The state of an \<open>ExecutionCorrelator\<close>: the client's data source, its two private fields,
  and the requests sent so far. \<open>workflowCache\<close> is a \<open>Map\<close>: an association list in
  insertion order, where setting a present key keeps its place. \<open>urlPathname\<close> stands for
  \<^verbatim>\<open>new URL(s).pathname\<close>, \<open>None\<close> when the constructor throws.
\<close>

record correlator =
  client :: api
  urlPathname :: "string \<Rightarrow> string option"
  webhookMappings :: "webhook_mapping list"
  workflowCache :: "(string \<times> workflow) list"
  requests :: "request list"

definition newCorrelator :: "api \<Rightarrow> (string \<Rightarrow> string option) \<Rightarrow> correlator" where
  "newCorrelator a parse =
     \<lparr>client = a, urlPathname = parse, webhookMappings = [], workflowCache = [], requests = []\<rparr>"

text \<open>\<open>initialize\<close>: the body of the loop over the listed workflows, then the loop. The result
  is the correlator as the call leaves it and the exception, if one was thrown.\<close>

definition initWorkflow :: "workflow \<Rightarrow> correlator \<Rightarrow> correlator \<times> error option" where
  "initWorkflow workflow c =
     (case getWorkflow (client c) (w_id workflow) (requests c) of
        (log, Inl err) \<Rightarrow> (c\<lparr>requests := log\<rparr>, Some err)
      | (log, Inr fullWorkflow) \<Rightarrow>
          (let c1 = c\<lparr>requests := log,
                       workflowCache := AList.update (w_id workflow) fullWorkflow (workflowCache c)\<rparr>
           in (case extractWebhookPaths fullWorkflow of
                 Inl err \<Rightarrow> (c1, Some err)
               | Inr webhooks \<Rightarrow>
                   (c1\<lparr>webhookMappings := webhookMappings c1 @
                         map (\<lambda>path. \<lparr>m_path = path, m_workflowId = w_id workflow,
                                        m_workflowName = w_name workflow\<rparr>) webhooks\<rparr>,
                    None))))"

fun initWorkflows :: "workflow list \<Rightarrow> correlator \<Rightarrow> correlator \<times> error option" where
  "initWorkflows [] c = (c, None)"
| "initWorkflows (workflow # workflows) c =
     (case initWorkflow workflow c of
        (c', Some err) \<Rightarrow> (c', Some err)
      | (c', None) \<Rightarrow> initWorkflows workflows c')"

definition initialize :: "correlator \<Rightarrow> correlator \<times> error option" where
  "initialize c =
     (case listWorkflows (client c) (requests c) of
        (log, Inl err) \<Rightarrow> (c\<lparr>requests := log\<rparr>, Some err)
      | (log, Inr workflows) \<Rightarrow> initWorkflows workflows (c\<lparr>requests := log\<rparr>))"

text \<open>The two \<open>replace\<close> calls of the path normalisation: \<^verbatim>\<open>/^\/webhook/\<close> and \<^verbatim>\<open>/^\//\<close>.\<close>

definition stripWebhook :: "string \<Rightarrow> string" where
  "stripWebhook p = (if prefix ''/webhook'' p then drop 8 p else p)"

definition stripSlash :: "string \<Rightarrow> string" where
  "stripSlash p = (if prefix ''/'' p then drop 1 p else p)"

definition normalizePath :: "string \<Rightarrow> string" where
  "normalizePath p = stripSlash (stripWebhook p)"

text \<open>\<^verbatim>\<open>a.includes(b)\<close>\<close>

definition jsIncludes :: "string \<Rightarrow> string \<Rightarrow> bool" where
  "jsIncludes a b = sublist b a"

text \<open>The path \<open>findWorkflowByWebhook\<close> starts from: the URL's path, or the argument itself
  when it is no URL. The argument is typed \<open>string\<close> and receives \<open>call.url\<close>; a value that
  is no string and no URL has no \<open>replace\<close> method.\<close>

definition pathOf :: "(string \<Rightarrow> string option) \<Rightarrow> json \<Rightarrow> error + string" where
  "pathOf parse webhookUrl =
     (case parse (jsString webhookUrl) of
        Some p \<Rightarrow> Inr p
      | None \<Rightarrow> (case webhookUrl of JStr s \<Rightarrow> Inr s | _ \<Rightarrow> Inl TypeError))"

definition matchesPath :: "string \<Rightarrow> webhook_mapping \<Rightarrow> bool" where
  "matchesPath path m =
     (let mappingPath = stripSlash (m_path m)
      in jsIncludes path mappingPath \<or> jsIncludes mappingPath path)"

definition findWorkflowByWebhook :: "correlator \<Rightarrow> json \<Rightarrow> error + webhook_mapping option" where
  "findWorkflowByWebhook c webhookUrl =
     (case pathOf (urlPathname c) webhookUrl of
        Inl err \<Rightarrow> Inl err
      | Inr p \<Rightarrow> Inr (find (matchesPath (normalizePath p)) (webhookMappings c)))"

section \<open>The search\<close>

text \<open>The two objects a search mutates, \<open>results\<close> and \<open>visited\<close>, and the requests sent.
  A step returns the state it leaves and the exception, if it threw.\<close>

record search_state =
  results :: "correlation_result list"
  visited :: "string set"
  sent :: "request list"

type_synonym step = "search_state \<Rightarrow> search_state \<times> error option"

text \<open>A \<^verbatim>\<open>for ... of\<close> loop whose body may throw.\<close>

fun forEach :: "('a \<Rightarrow> step) \<Rightarrow> 'a list \<Rightarrow> step" where
  "forEach body [] s = (s, None)"
| "forEach body (x # xs) s =
     (case body x s of
        (s', Some err) \<Rightarrow> (s', Some err)
      | (s', None) \<Rightarrow> forEach body xs s')"

text \<open>\<^verbatim>\<open>new Date(t).toISOString()\<close> throws a \<open>RangeError\<close> outside the range of dates.\<close>

definition validTime :: "int \<Rightarrow> bool" where
  "validTime t = (\<bar>t\<bar> \<le> 8640000000000000)"

text \<open>\<^verbatim>\<open>visited.add(candidate.id); results.push({...})\<close>\<close>

definition accept :: "execution \<Rightarrow> string \<Rightarrow> score \<Rightarrow> search_state \<Rightarrow> search_state" where
  "accept candidate parentId sc s =
     s\<lparr>visited := insert (e_id candidate) (visited s),
       results := results s @
         [\<lparr>cr_execution = candidate, cr_parentId = parentId,
           cr_confidence = confidence sc, cr_method = method_label sc\<rparr>]\<rparr>"

text \<open>The body of the inner loop of the webhook pass, for one candidate; \<open>recurse\<close> is the
  recursive call \<^verbatim>\<open>findCorrelatedExecutions(candidate, candidate.id, ..., currentDepth + 1, ...)\<close>.\<close>

definition webhookCandidate ::
  "(execution \<Rightarrow> string \<Rightarrow> step) \<Rightarrow> execution \<Rightarrow> string \<Rightarrow> int \<Rightarrow> int \<Rightarrow> user_context
     \<Rightarrow> http_call \<Rightarrow> execution \<Rightarrow> step" where
  "webhookCandidate recurse execution parentId execStart timeWindowMs userContext call candidate s =
     (if e_id candidate \<in> visited s then (s, None)
      else if (case e_startedAt candidate of
                 None \<Rightarrow> False
               | Some candidateStart \<Rightarrow>
                   candidateStart < execStart - 1000 \<or> candidateStart > execStart + timeWindowMs)
      then (s, None)
      else (let sc = scoreCorrelation execution candidate userContext call
            in if confidence sc > d0_5
               then recurse candidate (e_id candidate) (accept candidate parentId sc s)
               else (s, None)))"

text \<open>The body of the outer loop of the webhook pass, for one HTTP call.\<close>

definition webhookCall ::
  "correlator \<Rightarrow> (execution \<Rightarrow> string \<Rightarrow> step) \<Rightarrow> execution \<Rightarrow> string \<Rightarrow> int \<Rightarrow> int
     \<Rightarrow> user_context \<Rightarrow> http_call \<Rightarrow> step" where
  "webhookCall c recurse execution parentId execStart timeWindowMs userContext call s =
     (case findWorkflowByWebhook c (c_url call) of
        Inl err \<Rightarrow> (s, Some err)
      | Inr None \<Rightarrow> (s, None)
      | Inr (Some mapping) \<Rightarrow>
          (case listExecutions (client c) (m_workflowId mapping) 10 (sent s) of
             (log, Inl err) \<Rightarrow> (s\<lparr>sent := log\<rparr>, Some err)
           | (log, Inr candidates) \<Rightarrow>
               forEach (webhookCandidate recurse execution parentId execStart timeWindowMs
                          userContext call)
                 candidates (s\<lparr>sent := log\<rparr>)))"

text \<open>The same two bodies for the sub-workflow pass.\<close>

definition subCandidate ::
  "(execution \<Rightarrow> string \<Rightarrow> step) \<Rightarrow> string \<Rightarrow> int \<Rightarrow> int \<Rightarrow> user_context
     \<Rightarrow> execution \<Rightarrow> step" where
  "subCandidate recurse parentId execStart timeWindowMs userContext candidate s =
     (if e_id candidate \<in> visited s then (s, None)
      else if (case e_startedAt candidate of
                 None \<Rightarrow> False
               | Some candidateStart \<Rightarrow>
                   candidateStart < execStart \<or> candidateStart > execStart + timeWindowMs)
      then (s, None)
      else (let sc = subWorkflowScore execStart candidate userContext
            in if confidence sc > d0_5
               then recurse candidate (e_id candidate) (accept candidate parentId sc s)
               else (s, None)))"

definition subWorkflow ::
  "correlator \<Rightarrow> (execution \<Rightarrow> string \<Rightarrow> step) \<Rightarrow> execution \<Rightarrow> string \<Rightarrow> int \<Rightarrow> int
     \<Rightarrow> user_context \<Rightarrow> string \<Rightarrow> step" where
  "subWorkflow c recurse execution parentId execStart timeWindowMs userContext workflowId s =
     (if workflowId = e_workflowId execution then (s, None)
      else (case listExecutions (client c) workflowId 5 (sent s) of
              (log, Inl err) \<Rightarrow> (s\<lparr>sent := log\<rparr>, Some err)
            | (log, Inr candidates) \<Rightarrow>
                forEach (subCandidate recurse parentId execStart timeWindowMs userContext)
                  candidates (s\<lparr>sent := log\<rparr>)))"

definition workflowsWithSubTrigger :: "correlator \<Rightarrow> string list" where
  "workflowsWithSubTrigger c =
     map fst (filter (\<lambda>(ident, workflow). hasSubWorkflowTrigger workflow) (workflowCache c))"

text \<open>The body of \<open>findCorrelatedExecutions\<close> below its depth guard.\<close>

definition expand ::
  "correlator \<Rightarrow> (execution \<Rightarrow> string \<Rightarrow> step) \<Rightarrow> execution \<Rightarrow> string \<Rightarrow> int \<Rightarrow> step" where
  "expand c recurse execution parentId timeWindowMs s =
     (case e_startedAt execution of
        None \<Rightarrow> (s, Some RangeError)
      | Some execStart \<Rightarrow>
          if \<not> validTime (execStart - 1000) \<or> \<not> validTime (execStart + timeWindowMs)
          then (s, Some RangeError)
          else (let userContext = extractUserContext execution;
                    httpCalls = extractHttpCalls execution
                in (case forEach (webhookCall c recurse execution parentId execStart timeWindowMs
                                    userContext)
                           httpCalls s of
                      (s', Some err) \<Rightarrow> (s', Some err)
                    | (s', None) \<Rightarrow>
                        forEach (subWorkflow c recurse execution parentId execStart timeWindowMs
                                   userContext)
                          (workflowsWithSubTrigger c) s')))"

function findCorrelatedExecutions ::
  "correlator \<Rightarrow> int \<Rightarrow> int \<Rightarrow> int \<Rightarrow> execution \<Rightarrow> string \<Rightarrow> step" where
  "findCorrelatedExecutions c timeWindowMs maxDepth currentDepth execution parentId s =
     (if currentDepth \<ge> maxDepth then (s, None)
      else expand c
             (\<lambda>candidate ident. findCorrelatedExecutions c timeWindowMs maxDepth (currentDepth + 1)
                candidate ident)
             execution parentId timeWindowMs s)"
  by pat_completeness auto
termination
  by (relation "measure (\<lambda>(c, timeWindowMs, maxDepth, currentDepth, execution, parentId, s).
                           nat (maxDepth - currentDepth))") auto

declare findCorrelatedExecutions.simps [simp del]

text \<open>\<open>correlateExecutions\<close>, with the options' defaults. \<open>search\<close> is its second half: fetching
  the root execution and running \<open>findCorrelatedExecutions\<close> from depth 0 on fresh \<open>results\<close>
  and \<open>visited\<close>; it returns the state the search leaves. The result of \<open>correlateExecutions\<close>
  is the correlator after the call and either the exception that rejected the promise or the
  list it resolved to. The time window and the depth are integers here.\<close>

record options =
  timeWindowMs :: "int option"
  maxDepth :: "int option"

definition search ::
  "correlator \<Rightarrow> string \<Rightarrow> int \<Rightarrow> int \<Rightarrow> search_state \<times> error option" where
  "search c rootExecutionId tw md =
     (case getExecution (client c) rootExecutionId (requests c) of
        (log, Inl err) \<Rightarrow> (\<lparr>results = [], visited = {rootExecutionId}, sent = log\<rparr>, Some err)
      | (log, Inr rootExecution) \<Rightarrow>
          findCorrelatedExecutions c tw md 0 rootExecution rootExecutionId
            \<lparr>results = [], visited = {rootExecutionId}, sent = log\<rparr>)"

definition correlateExecutions ::
  "correlator \<Rightarrow> string \<Rightarrow> options \<Rightarrow> correlator \<times> (error + correlation_result list)" where
  "correlateExecutions c rootExecutionId opts =
     (let tw = (case timeWindowMs opts of None \<Rightarrow> 30000 | Some t \<Rightarrow> t);
          md = (case maxDepth opts of None \<Rightarrow> 5 | Some d \<Rightarrow> d);
          (c1, failed) = (if length (webhookMappings c) = 0 then initialize c else (c, None))
      in (case failed of
            Some err \<Rightarrow> (c1, Inl err)
          | None \<Rightarrow>
              (case search c1 rootExecutionId tw md of
                 (s, Some err) \<Rightarrow> (c1\<lparr>requests := sent s\<rparr>, Inl err)
               | (s, None) \<Rightarrow> (c1\<lparr>requests := sent s\<rparr>, Inr (results s)))))"

definition getWorkflowName :: "correlator \<Rightarrow> string \<Rightarrow> string" where
  "getWorkflowName c workflowId =
     (case map_of (workflowCache c) workflowId of
        None \<Rightarrow> workflowId
      | Some workflow \<Rightarrow> if w_name workflow = [] then workflowId else w_name workflow)"

section \<open>The weight table of the specification\<close>

text \<open>The webhook scorer as the specification words it: a list of signals in evaluation
  order, each with the condition under which it contributes, its weight and its name; the
  confidence is the sum of the contributing weights (added in that order), capped at \<open>1.0\<close>,
  and the label joins the contributing names with \<open>+\<close>.\<close>

definition specSignals ::
  "execution \<Rightarrow> user_context \<Rightarrow> user_context \<Rightarrow> http_call \<Rightarrow> (bool \<times> double \<times> string) list" where
  "specSignals candidate parentContext candidateContext httpCall =
     (let d = timeDiffOf (e_startedAt candidate) (c_timestamp httpCall)
      in [(True, d0_3, ''webhook_url''),
          (below d 500, d0_3, ''timestamp_exact''),
          (\<not> below d 500 \<and> below d 2000, d0_2, ''timestamp_close''),
          (\<not> below d 2000 \<and> below d 5000, d0_1, ''timestamp''),
          (sameId (userId parentContext) (userId candidateContext), d0_3, ''user_id''),
          (sameId (chatId parentContext) (chatId candidateContext), d0_2, ''chat_id''),
          (sameId (correlationId parentContext) (correlationId candidateContext), d0_5,
             ''correlation_id''),
          (samePattern (responseId parentContext) (responseId candidateContext), d0_1,
             ''response_pattern'')])"

definition specScore :: "execution \<Rightarrow> user_context \<Rightarrow> http_call \<Rightarrow> score" where
  "specScore candidate parentContext httpCall =
     (let contributing =
            filter fst (specSignals candidate parentContext (extractUserContext candidate) httpCall)
      in \<lparr>confidence = min (foldl fadd 0 (map (\<lambda>g. fst (snd g)) contributing)) d1_0,
          method_label = join ''+'' (map (\<lambda>g. snd (snd g)) contributing)\<rparr>)"

section \<open>What one run of initialize fetches\<close>

text \<open>For a listed workflow: the definition the platform returns for its id (if the id is
  valid and the request succeeds), the cache after storing it, the mappings its webhook nodes
  add, and whether the loop body completes for it.\<close>

definition fullOf :: "api \<Rightarrow> string \<Rightarrow> workflow option" where
  "fullOf a ident =
     (case validateId ident ''Workflow ID'' of
        Some err \<Rightarrow> None
      | None \<Rightarrow> (case workflowOf a ident of Inl err \<Rightarrow> None | Inr full \<Rightarrow> Some full))"

definition cacheStep :: "api \<Rightarrow> workflow \<Rightarrow> (string \<times> workflow) list \<Rightarrow> (string \<times> workflow) list" where
  "cacheStep a w cache =
     (case fullOf a (w_id w) of None \<Rightarrow> cache | Some full \<Rightarrow> AList.update (w_id w) full cache)"

definition mappingsFor :: "api \<Rightarrow> workflow \<Rightarrow> webhook_mapping list" where
  "mappingsFor a w =
     (case fullOf a (w_id w) of
        None \<Rightarrow> []
      | Some full \<Rightarrow>
          (case extractWebhookPaths full of
             Inl err \<Rightarrow> []
           | Inr webhooks \<Rightarrow>
               map (\<lambda>path. \<lparr>m_path = path, m_workflowId = w_id w, m_workflowName = w_name w\<rparr>)
                 webhooks))"

definition indexable :: "api \<Rightarrow> workflow \<Rightarrow> bool" where
  "indexable a w =
     (case fullOf a (w_id w) of
        None \<Rightarrow> False
      | Some full \<Rightarrow> (case extractWebhookPaths full of Inl err \<Rightarrow> False | Inr webhooks \<Rightarrow> True))"

section \<open>Properties of a search\<close>

definition resultId :: "correlation_result \<Rightarrow> string" where
  "resultId r = e_id (cr_execution r)"

text \<open>The visited-set is the root id plus one entry per result, without duplicates.\<close>

definition visitedExact :: "string \<Rightarrow> search_state \<Rightarrow> bool" where
  "visitedExact root s =
     (distinct (map resultId (results s)) \<and> root \<notin> set (map resultId (results s))
      \<and> visited s = insert root (set (map resultId (results s))))"

definition inBounds :: "correlation_result \<Rightarrow> bool" where
  "inBounds r = (d0_5 < cr_confidence r \<and> cr_confidence r \<le> d1_0)"

text \<open>A parent-child chain of results below the id \<open>p\<close>: each result names the previous
  one (first \<open>p\<close>) as its parent.\<close>

fun chain :: "string \<Rightarrow> correlation_result list \<Rightarrow> bool" where
  "chain p [] = True"
| "chain p (r # rs) = (cr_parentId r = p \<and> chain (resultId r) rs)"

text \<open>The failure the platform answers a request with, if it does.\<close>

definition failureOf :: "error + 'a \<Rightarrow> error option" where
  "failureOf answer = (case answer of Inl err \<Rightarrow> Some err | Inr v \<Rightarrow> None)"

fun answer :: "api \<Rightarrow> request \<Rightarrow> error option" where
  "answer a ListWorkflows = failureOf (workflowsOf a)"
| "answer a (GetWorkflow ident) = failureOf (workflowOf a ident)"
| "answer a (ListExecutions ident limit) = failureOf (executionsOf a ident limit)"
| "answer a (GetExecution ident) = failureOf (executionOf a ident)"

text \<open>Exceptions raised by the program's own code rather than by a request.\<close>

fun raisedLocally :: "error \<Rightarrow> bool" where
  "raisedLocally (ApiError m) = False"
| "raisedLocally (InvalidId m) = True"
| "raisedLocally TypeError = True"
| "raisedLocally RangeError = True"

text \<open>The sub-workflow scoring as the specification words it (no cap).\<close>

definition specSubSignals ::
  "int \<Rightarrow> execution \<Rightarrow> user_context \<Rightarrow> user_context \<Rightarrow> (bool \<times> double \<times> string) list" where
  "specSubSignals execStart candidate parentContext candidateContext =
     (let d = timeDiffOf (e_startedAt candidate) execStart
      in [(below d 2000, d0_3, ''timestamp''),
          (\<not> below d 2000 \<and> below d 5000, d0_2, ''timestamp''),
          (sameId (userId parentContext) (userId candidateContext), d0_4, ''user_id''),
          (sameId (chatId parentContext) (chatId candidateContext), d0_3, ''chat_id'')])"

definition specSubScore :: "int \<Rightarrow> execution \<Rightarrow> user_context \<Rightarrow> score" where
  "specSubScore execStart candidate parentContext =
     (let contributing =
            filter fst (specSubSignals execStart candidate parentContext (extractUserContext candidate))
      in \<lparr>confidence = foldl fadd 0 (map (\<lambda>g. fst (snd g)) contributing),
          method_label = join ''+'' (map (\<lambda>g. snd (snd g)) contributing)\<rparr>)"

text \<open>A depth assignment for the results of a search: every result lies one level below its
  parent, at a level between 1 and \<open>md\<close>, and both ids are in the visited-set.\<close>

definition levelled :: "int \<Rightarrow> (string \<Rightarrow> int) \<Rightarrow> search_state \<Rightarrow> bool" where
  "levelled md lev s =
     list_all (\<lambda>r. resultId r \<in> visited s \<and> cr_parentId r \<in> visited s
                 \<and> lev (resultId r) = lev (cr_parentId r) + 1
                 \<and> 1 \<le> lev (resultId r) \<and> lev (resultId r) \<le> md)
       (results s)"

text \<open>From \<open>s\<close> to \<open>s'\<close>, a depth assignment that puts the parent \<open>p\<close> at depth \<open>d\<close> extends
  to one for \<open>s'\<close> that agrees with it on what was visited.\<close>

definition deepens :: "int \<Rightarrow> int \<Rightarrow> string \<Rightarrow> search_state \<Rightarrow> search_state \<Rightarrow> bool" where
  "deepens md d p s s' =
     (\<forall>lev. levelled md lev s \<and> lev p = d \<and> 0 \<le> d \<and> p \<in> visited s \<longrightarrow>
        (\<exists>lev'. levelled md lev' s' \<and> (\<forall>x \<in> visited s. lev' x = lev x) \<and> visited s \<subseteq> visited s'))"

text \<open>The requests \<open>new\<close> sent by a computation that ended with \<open>failed\<close>: when it completed,
  none of them failed; when it threw, either none failed and the exception was raised by
  the program itself, or the last request sent is the only one that failed and the exception
  is the platform's answer to it.\<close>

definition faithful :: "api \<Rightarrow> request list \<Rightarrow> error option \<Rightarrow> bool" where
  "faithful a new failed =
     (case failed of
        None \<Rightarrow> list_all (\<lambda>q. answer a q = None) new
      | Some err \<Rightarrow>
          (list_all (\<lambda>q. answer a q = None) new \<and> raisedLocally err)
          \<or> (new \<noteq> [] \<and> list_all (\<lambda>q. answer a q = None) (butlast new)
              \<and> answer a (last new) = Some err))"

definition reports :: "api \<Rightarrow> search_state \<Rightarrow> search_state \<times> error option \<Rightarrow> bool" where
  "reports a s r = (\<exists>new. sent (fst r) = sent s @ new \<and> faithful a new (snd r))"

text \<open>Requests about executions, as opposed to the workflow fan-out of \<open>initialize\<close>.\<close>

fun isExecutionRequest :: "request \<Rightarrow> bool" where
  "isExecutionRequest ListWorkflows = False"
| "isExecutionRequest (GetWorkflow ident) = False"
| "isExecutionRequest (ListExecutions ident limit) = True"
| "isExecutionRequest (GetExecution ident) = True"

definition sendsExecutionRequests :: "search_state \<Rightarrow> search_state \<times> error option \<Rightarrow> bool" where
  "sendsExecutionRequests s r = (\<exists>new. sent (fst r) = sent s @ new \<and> list_all isExecutionRequest new)"

section \<open>Scenarios\<close>

text \<open>An execution whose first node carries a user id at the top level and another in its
  \<open>body\<close>, and whose later invocations carry a correlation id.\<close>

definition ctxDemo :: execution where
  "ctxDemo = \<lparr>e_id = ''1'', e_startedAt = Some 1000, e_workflowId = ''W1'', e_runData = None\<rparr>"

definition ctxDemoFirst :: nodeRun where
  "ctxDemoFirst = \<lparr>r_startTime = 5, r_main = Some [[\<lparr>i_json =
      JObj [(''user_id'', JStr ''u1''), (''body'', JObj [(''user_id'', JStr ''u2'')])]\<rparr>]]\<rparr>"

definition ctxDemoLater :: nodeRun where
  "ctxDemoLater = \<lparr>r_startTime = 6, r_main = Some [[\<lparr>i_json =
      JObj [(''correlation_id'', JStr ''c9'')]\<rparr>]]\<rparr>"

text \<open>The scenario of the specification: a root execution with one HTTP call to
  \<^verbatim>\<open>https://host/webhook/agent\<close>, and a candidate of workflow \<open>W2\<close> that starts 300 ms after
  the call and carries the same user id. \<open>d0_9_pred\<close> is the binary64 number just below
  \<^verbatim>\<open>0.9\<close>, printed \<^verbatim>\<open>0.8999999999999999\<close>.\<close>

definition d0_9_pred :: double where "d0_9_pred = 64851834634135136"

definition agentRoot :: execution where
  "agentRoot =
     \<lparr>e_id = ''100'', e_startedAt = Some 1000000, e_workflowId = ''W1'',
      e_runData = Some
        [(''Webhook'', [\<lparr>r_startTime = 1000000,
            r_main = Some [[\<lparr>i_json = JObj [(''user_id'', JStr ''u1'')]\<rparr>]]\<rparr>]),
         (''HTTP Request'', [\<lparr>r_startTime = 1000200,
            r_main = Some [[\<lparr>i_json = JObj [(''url'', JStr ''https://host/webhook/agent'')]\<rparr>]]\<rparr>])]\<rparr>"

definition agentCall :: http_call where
  "agentCall = \<lparr>c_nodeName = ''HTTP Request'', c_url = JStr ''https://host/webhook/agent'',
                 c_method = JStr ''GET'', c_timestamp = 1000200\<rparr>"

definition agentCandidate :: execution where
  "agentCandidate =
     \<lparr>e_id = ''200'', e_startedAt = Some 1000500, e_workflowId = ''W2'',
      e_runData = Some
        [(''Webhook'', [\<lparr>r_startTime = 1000500,
            r_main = Some [[\<lparr>i_json = JObj [(''body'', JObj [(''user_id'', JStr ''u1'')])]\<rparr>]]\<rparr>])]\<rparr>"

definition agentMappings :: "webhook_mapping list" where
  "agentMappings =
     [\<lparr>m_path = ''/agent'', m_workflowId = ''W2'', m_workflowName = ''Agent''\<rparr>,
      \<lparr>m_path = ''/billing'', m_workflowId = ''W3'', m_workflowName = ''Billing''\<rparr>]"

text \<open>A platform that rejects every request, and a stand-in for the URL parser that knows
  the two URLs of the scenarios and rejects everything else.\<close>

definition downApi :: api where
  "downApi =
     \<lparr>workflowsOf = Inl (ApiError ''503''),
      workflowOf = (\<lambda>ident. Inl (ApiError ''503'')),
      executionsOf = (\<lambda>ident limit. Inl (ApiError ''503'')),
      executionOf = (\<lambda>ident. Inl (ApiError ''503''))\<rparr>"

definition urlPaths :: "string \<Rightarrow> string option" where
  "urlPaths s =
     (if s = ''https://host/webhook/agent'' then Some ''/webhook/agent''
      else if s = ''https://host/webhook'' then Some ''/webhook''
      else None)"

definition indexed :: correlator where
  "indexed = (newCorrelator downApi urlPaths)\<lparr>webhookMappings := agentMappings\<rparr>"

text \<open>The platform of the scenario: workflow \<open>W1\<close> calls the webhook \<open>agent\<close> of workflow
  \<open>W2\<close>. The listing of workflows omits the nodes.\<close>

definition agentApi :: api where
  "agentApi =
     \<lparr>workflowsOf = Inr [\<lparr>w_id = ''W1'', w_name = ''Intake'', w_nodes = None\<rparr>,
                          \<lparr>w_id = ''W2'', w_name = ''Agent'', w_nodes = None\<rparr>],
      workflowOf = (\<lambda>ident.
         if ident = ''W1''
         then Inr \<lparr>w_id = ''W1'', w_name = ''Intake'', w_nodes = Some
                [\<lparr>n_type = ''n8n-nodes-base.httpRequest'', n_parameters = None\<rparr>]\<rparr>
         else if ident = ''W2''
         then Inr \<lparr>w_id = ''W2'', w_name = ''Agent'', w_nodes = Some
                [\<lparr>n_type = ''n8n-nodes-base.webhook'',
                  n_parameters = Some (JObj [(''path'', JStr ''agent'')])\<rparr>]\<rparr>
         else Inl (ApiError ''404'')),
      executionsOf = (\<lambda>ident limit. if ident = ''W2'' then Inr [agentCandidate] else Inr []),
      executionOf = (\<lambda>ident. if ident = ''100'' then Inr agentRoot else Inl (ApiError ''404''))\<rparr>"

text \<open>Two workflows that can be called as sub-workflows and declare no webhook. Their
  executions start at the same instant for the same user, so each qualifies as a candidate
  of the other.\<close>

definition loopExecution :: "string \<Rightarrow> string \<Rightarrow> execution" where
  "loopExecution ident workflowId =
     \<lparr>e_id = ident, e_startedAt = Some 5000, e_workflowId = workflowId,
      e_runData = Some
        [(''Start'', [\<lparr>r_startTime = 5000,
            r_main = Some [[\<lparr>i_json = JObj [(''user_id'', JStr ''u7'')]\<rparr>]]\<rparr>])]\<rparr>"

definition loopWorkflow :: "string \<Rightarrow> workflow" where
  "loopWorkflow ident =
     \<lparr>w_id = ident, w_name = ident, w_nodes = Some
        [\<lparr>n_type = ''n8n-nodes-base.executeWorkflowTrigger'', n_parameters = None\<rparr>]\<rparr>"

definition loopApi :: api where
  "loopApi =
     \<lparr>workflowsOf = Inr [\<lparr>w_id = ''WA'', w_name = ''WA'', w_nodes = None\<rparr>,
                          \<lparr>w_id = ''WB'', w_name = ''WB'', w_nodes = None\<rparr>],
      workflowOf = (\<lambda>ident.
         if ident = ''WA'' \<or> ident = ''WB'' then Inr (loopWorkflow ident)
         else Inl (ApiError ''404'')),
      executionsOf = (\<lambda>ident limit.
         if ident = ''WA'' then Inr [loopExecution ''1'' ''WA'', loopExecution ''3'' ''WA'']
         else if ident = ''WB'' then Inr [loopExecution ''2'' ''WB'']
         else Inr []),
      executionOf = (\<lambda>ident.
         if ident = ''1'' then Inr (loopExecution ''1'' ''WA'') else Inl (ApiError ''404''))\<rparr>"

text \<open>The correlator of the scenario after \<open>initialize\<close>, and the one result of its search.\<close>

definition agentReady :: correlator where
  "agentReady =
     \<lparr>client = agentApi, urlPathname = urlPaths,
      webhookMappings = [\<lparr>m_path = ''/agent'', m_workflowId = ''W2'', m_workflowName = ''Agent''\<rparr>],
      workflowCache =
        [(''W1'', \<lparr>w_id = ''W1'', w_name = ''Intake'', w_nodes = Some
                [\<lparr>n_type = ''n8n-nodes-base.httpRequest'', n_parameters = None\<rparr>]\<rparr>),
         (''W2'', \<lparr>w_id = ''W2'', w_name = ''Agent'', w_nodes = Some
                [\<lparr>n_type = ''n8n-nodes-base.webhook'',
                  n_parameters = Some (JObj [(''path'', JStr ''agent'')])\<rparr>]\<rparr>)],
      requests = [ListWorkflows, GetWorkflow ''W1'', GetWorkflow ''W2'']\<rparr>"

definition agentResult :: correlation_result where
  "agentResult =
     \<lparr>cr_execution = agentCandidate, cr_parentId = ''100'', cr_confidence = d0_9_pred,
      cr_method = ''webhook_url+timestamp_exact+user_id''\<rparr>"

definition agentFinal :: search_state where
  "agentFinal =
     \<lparr>results = [agentResult], visited = {''200'', ''100''},
      sent = [ListWorkflows, GetWorkflow ''W1'', GetWorkflow ''W2'', GetExecution ''100'',
              ListExecutions ''W2'' 10]\<rparr>"

text \<open>The correlator of the two sub-workflows after \<open>initialize\<close>, on a platform \<open>a\<close>: no
  webhook is declared, so the index stays empty. \<open>loopResult\<close> is the result recorded for an
  execution of the loop. \<open>brokenApi\<close> is the same platform, failing to list the executions of
  \<open>WA\<close>.\<close>

definition loopCorrelator :: "api \<Rightarrow> correlator" where
  "loopCorrelator a =
     \<lparr>client = a, urlPathname = urlPaths, webhookMappings = [],
      workflowCache = [(''WA'', loopWorkflow ''WA''), (''WB'', loopWorkflow ''WB'')],
      requests = [ListWorkflows, GetWorkflow ''WA'', GetWorkflow ''WB'']\<rparr>"

definition loopResult :: "string \<Rightarrow> string \<Rightarrow> string \<Rightarrow> correlation_result" where
  "loopResult ident workflowId parentId =
     \<lparr>cr_execution = loopExecution ident workflowId, cr_parentId = parentId,
      cr_confidence = 50440315826549552, cr_method = ''timestamp+user_id''\<rparr>"

definition brokenApi :: api where
  "brokenApi =
     loopApi\<lparr>executionsOf := (\<lambda>ident limit.
        if ident = ''WA'' then Inl (ApiError ''502'') else executionsOf loopApi ident limit)\<rparr>"

section \<open>Signal extraction\<close>

lemma scanRuns_append_Inl:
  "scanRuns xs r = Inl r' \<Longrightarrow> scanRuns (xs @ ys) r = Inl r'"
  by (induction xs arbitrary: r) (auto split: option.splits if_splits simp: Let_def)

lemma scanRuns_Inr_not_found:
  "scanRuns xs r = Inr r' \<Longrightarrow> \<not> found r \<Longrightarrow> \<not> found r'"
  by (induction xs arbitrary: r) (auto split: option.splits if_splits simp: Let_def)

lemma scanNodes_Inr_not_found:
  "scanNodes ns r = Inr r' \<Longrightarrow> \<not> found r \<Longrightarrow> \<not> found r'"
proof (induction ns arbitrary: r)
  case Nil
  then show ?case by simp
next
  case (Cons a ns)
  obtain n runs where a: "a = (n, runs)" by (cases a)
  from Cons.prems(1) obtain r1 where r1: "scanRuns runs r = Inr r1" "scanNodes ns r1 = Inr r'"
    by (auto simp: a split: sum.splits)
  from scanRuns_Inr_not_found [OF r1(1) Cons.prems(2)] Cons.IH [OF r1(2)] show ?case
    by blast
qed

lemma scanNodes_extend_Inl:
  "scanNodes (pre @ [(n, runs)]) r = Inl r'
   \<Longrightarrow> scanNodes (pre @ (n, runs @ later) # post) r = Inl r'"
proof (induction pre arbitrary: r)
  case Nil
  then have "scanRuns runs r = Inl r'"
    by (simp split: sum.splits)
  then have "scanRuns (runs @ later) r = Inl r'"
    by (rule scanRuns_append_Inl)
  then show ?case by simp
next
  case (Cons a pre)
  obtain m rs where a: "a = (m, rs)" by (cases a)
  show ?case using Cons.prems Cons.IH by (auto simp: a split: sum.splits)
qed

lemma not_found_noContext: "\<not> found noContext"
  by (simp add: found_def noContext_def truthyStr_def)

lemma extractUserContext_prefix:
  assumes "found (extractUserContext (e\<lparr>e_runData := Some (pre @ [(n, runs)])\<rparr>))"
  shows "extractUserContext (e\<lparr>e_runData := Some (pre @ (n, runs @ later) # post)\<rparr>)
       = extractUserContext (e\<lparr>e_runData := Some (pre @ [(n, runs)])\<rparr>)"
proof (cases "scanNodes (pre @ [(n, runs)]) noContext")
  case (Inl r)
  from scanNodes_extend_Inl [OF this] Inl show ?thesis
    by (simp add: extractUserContext_def)
next
  case (Inr r)
  from scanNodes_Inr_not_found [OF this not_found_noContext] assms Inr show ?thesis
    by (simp add: extractUserContext_def)
qed

lemma readIds_userId:
  "truthyOpt (field obj ''user_id'') \<Longrightarrow> userId (readIds obj r) = map_option jsString (field obj ''user_id'')"
  by (simp add: readIds_def Let_def)
lemma readIds_chatId:
  "truthyOpt (field obj ''chat_id'') \<Longrightarrow> chatId (readIds obj r) = map_option jsString (field obj ''chat_id'')"
  by (simp add: readIds_def Let_def)
lemma readIds_correlationId:
  "truthyOpt (field obj ''correlation_id'') \<Longrightarrow> correlationId (readIds obj r) = map_option jsString (field obj ''correlation_id'')"
  by (simp add: readIds_def Let_def)
lemma readIds_responseId:
  "truthyOpt (field obj ''response_id'') \<Longrightarrow> responseId (readIds obj r) = map_option jsString (field obj ''response_id'')"
  by (simp add: readIds_def Let_def)

text \<open>
  Claim C7. \<open>extractUserContext\<close> scans the node invocations in the iteration order of the
  run data; once the invocations read so far have populated \<open>userId\<close> or \<open>chatId\<close>, the
  result is final: whatever invocations and nodes follow, they are not examined (first
  conjunct, and second for one step of the inner loop). Within one invocation the identifiers
  of a truthy \<open>body\<close> replace those read from the top level of the payload (third conjunct).
\<close>

theorem extractUserContext_early_return:
  "(found (extractUserContext (e\<lparr>e_runData := Some (pre @ [(n, runs)])\<rparr>)) \<longrightarrow>
      extractUserContext (e\<lparr>e_runData := Some (pre @ (n, runs @ later) # post)\<rparr>)
        = extractUserContext (e\<lparr>e_runData := Some (pre @ [(n, runs)])\<rparr>))
   \<and> (mainOutput run = Some it \<and> truthy (i_json it) \<and> found (readPayload (i_json it) r) \<longrightarrow>
      scanRuns (run # rest) r = Inl (readPayload (i_json it) r))
   \<and> (field js ''body'' = Some body \<and> truthy body \<longrightarrow>
      (truthyOpt (field body ''user_id'') \<longrightarrow>
         userId (readPayload js r) = map_option jsString (field body ''user_id'')) \<and>
      (truthyOpt (field body ''chat_id'') \<longrightarrow>
         chatId (readPayload js r) = map_option jsString (field body ''chat_id'')) \<and>
      (truthyOpt (field body ''correlation_id'') \<longrightarrow>
         correlationId (readPayload js r) = map_option jsString (field body ''correlation_id'')) \<and>
      (truthyOpt (field body ''response_id'') \<longrightarrow>
         responseId (readPayload js r) = map_option jsString (field body ''response_id'')))"
proof (intro conjI impI)
  assume "found (extractUserContext (e\<lparr>e_runData := Some (pre @ [(n, runs)])\<rparr>))"
  then show "extractUserContext (e\<lparr>e_runData := Some (pre @ (n, runs @ later) # post)\<rparr>)
        = extractUserContext (e\<lparr>e_runData := Some (pre @ [(n, runs)])\<rparr>)"
    by (rule extractUserContext_prefix)
next
  assume "mainOutput run = Some it \<and> truthy (i_json it) \<and> found (readPayload (i_json it) r)"
  then show "scanRuns (run # rest) r = Inl (readPayload (i_json it) r)"
    by (simp add: Let_def)
next
  assume "field js ''body'' = Some body \<and> truthy body" "truthyOpt (field body ''user_id'')"
  then show "userId (readPayload js r) = map_option jsString (field body ''user_id'')"
    by (simp add: readPayload_def Let_def readIds_userId)
next
  assume "field js ''body'' = Some body \<and> truthy body" "truthyOpt (field body ''chat_id'')"
  then show "chatId (readPayload js r) = map_option jsString (field body ''chat_id'')"
    by (simp add: readPayload_def Let_def readIds_chatId)
next
  assume "field js ''body'' = Some body \<and> truthy body" "truthyOpt (field body ''correlation_id'')"
  then show "correlationId (readPayload js r) = map_option jsString (field body ''correlation_id'')"
    by (simp add: readPayload_def Let_def readIds_correlationId)
next
  assume "field js ''body'' = Some body \<and> truthy body" "truthyOpt (field body ''response_id'')"
  then show "responseId (readPayload js r) = map_option jsString (field body ''response_id'')"
    by (simp add: readPayload_def Let_def readIds_responseId)
qed

lemma ctxDemo_first:
  "extractUserContext (ctxDemo\<lparr>e_runData := Some [(''A'', [ctxDemoFirst])]\<rparr>)
     = \<lparr>userId = Some ''u2'', chatId = None, correlationId = None, responseId = None\<rparr>"
  by (simp add: extractUserContext_def ctxDemo_def ctxDemoFirst_def mainOutput_def
      readPayload_def readIds_def found_def truthyStr_def noContext_def)

theorem extractUserContext_early_return_witness:
  "extractUserContext
     (ctxDemo\<lparr>e_runData := Some [(''A'', [ctxDemoFirst, ctxDemoLater]), (''B'', [ctxDemoLater])]\<rparr>)
     = \<lparr>userId = Some ''u2'', chatId = None, correlationId = None, responseId = None\<rparr>
   \<and> correlationId (readPayload (i_json (hd (hd (the (r_main ctxDemoLater))))) noContext) = Some ''c9''
   \<and> userId (readPayload (JObj [(''user_id'', JStr ''u1''), (''body'', JObj [(''user_id'', JStr ''u2'')])])
        noContext) = Some ''u2''
   \<and> scanRuns [ctxDemoFirst, ctxDemoLater] noContext
       = Inl \<lparr>userId = Some ''u2'', chatId = None, correlationId = None, responseId = None\<rparr>"
proof -
  have f: "found (extractUserContext (ctxDemo\<lparr>e_runData := Some ([] @ [(''A'', [ctxDemoFirst])])\<rparr>))"
    by (simp add: ctxDemo_first found_def truthyStr_def)
  have b: "field (JObj [(''user_id'', JStr ''u1''), (''body'', JObj [(''user_id'', JStr ''u2'')])]) ''body''
             = Some (JObj [(''user_id'', JStr ''u2'')]) \<and> truthy (JObj [(''user_id'', JStr ''u2'')])"
    by simp
  have u: "truthyOpt (field (JObj [(''user_id'', JStr ''u2'')]) ''user_id'')"
    by simp
  note t = extractUserContext_early_return
    [where e = ctxDemo and pre = "[]" and n = "''A''" and runs = "[ctxDemoFirst]"
       and later = "[ctxDemoLater]" and post = "[(''B'', [ctxDemoLater])]"
       and js = "JObj [(''user_id'', JStr ''u1''), (''body'', JObj [(''user_id'', JStr ''u2'')])]"
       and body = "JObj [(''user_id'', JStr ''u2'')]" and r = noContext
       and run = ctxDemoFirst and rest = "[ctxDemoLater]"
       and it = "\<lparr>i_json = JObj [(''user_id'', JStr ''u1''), (''body'', JObj [(''user_id'', JStr ''u2'')])]\<rparr>"]
  from t f have 1: "extractUserContext
     (ctxDemo\<lparr>e_runData := Some [(''A'', [ctxDemoFirst, ctxDemoLater]), (''B'', [ctxDemoLater])]\<rparr>)
     = \<lparr>userId = Some ''u2'', chatId = None, correlationId = None, responseId = None\<rparr>"
    by (simp add: ctxDemo_first)
  from t b u have 3: "userId (readPayload (JObj [(''user_id'', JStr ''u1''), (''body'', JObj [(''user_id'', JStr ''u2'')])])
        noContext) = Some ''u2''"
    by simp
  have 2: "correlationId (readPayload (i_json (hd (hd (the (r_main ctxDemoLater))))) noContext) = Some ''c9''"
    by (simp add: ctxDemoLater_def readPayload_def readIds_def noContext_def)
  have p: "readPayload (JObj [(''user_id'', JStr ''u1''), (''body'', JObj [(''user_id'', JStr ''u2'')])])
             noContext
           = \<lparr>userId = Some ''u2'', chatId = None, correlationId = None, responseId = None\<rparr>"
    by (simp add: readPayload_def readIds_def noContext_def)
  have "mainOutput ctxDemoFirst
          = Some \<lparr>i_json = JObj [(''user_id'', JStr ''u1''), (''body'', JObj [(''user_id'', JStr ''u2'')])]\<rparr>"
    by (simp add: mainOutput_def ctxDemoFirst_def)
  moreover have "found \<lparr>userId = Some ''u2'', chatId = None, correlationId = None, responseId = None\<rparr>"
    by (simp add: found_def truthyStr_def)
  ultimately have 4: "scanRuns [ctxDemoFirst, ctxDemoLater] noContext
       = Inl \<lparr>userId = Some ''u2'', chatId = None, correlationId = None, responseId = None\<rparr>"
    using t by (simp add: p)
  from 1 2 3 4 show ?thesis by simp
qed

section \<open>Webhook paths\<close>

lemma stripSlash_id: "\<not> prefix ''/'' q \<Longrightarrow> stripSlash q = q"
  by (simp add: stripSlash_def)

lemma stripWebhook_id: "\<not> prefix ''/'' q \<Longrightarrow> stripWebhook q = q"
proof -
  assume a: "\<not> prefix ''/'' q"
  have "prefix ''/'' ''/webhook''" by simp
  with a have "\<not> prefix ''/webhook'' q"
    using prefix_order.trans by blast
  then show ?thesis by (simp add: stripWebhook_def)
qed

lemma normalizePath_shorter: "prefix ''/'' q \<Longrightarrow> length (normalizePath q) < length q"
  by (cases q) (auto simp: normalizePath_def stripSlash_def stripWebhook_def prefix_def)

text \<open>
  Claim C6, as stated: normalising a normalised path changes nothing, for every input. It
  fails where the input starts with two slashes: the second \<open>replace\<close> removes one slash only.
\<close>

theorem normalizePath_twice_counterexample:
  "normalizePath (normalizePath ''//a'') \<noteq> normalizePath ''//a''"
  by (simp add: normalizePath_def stripSlash_def stripWebhook_def)

text \<open>
  Claim C6, amended. Normalising twice gives the same path as normalising once exactly when the
  normalised path does not begin with a slash.
\<close>

theorem normalizePath_idempotent_iff:
  "(normalizePath (normalizePath p) = normalizePath p) = (\<not> prefix ''/'' (normalizePath p))"
proof
  assume eq: "normalizePath (normalizePath p) = normalizePath p"
  show "\<not> prefix ''/'' (normalizePath p)"
  proof
    assume "prefix ''/'' (normalizePath p)"
    from normalizePath_shorter [OF this] eq show False by simp
  qed
next
  assume a: "\<not> prefix ''/'' (normalizePath p)"
  have "normalizePath q = q" if "\<not> prefix ''/'' q" for q
    using that by (simp add: normalizePath_def stripSlash_id stripWebhook_id)
  from this [OF a] show "normalizePath (normalizePath p) = normalizePath p" .
qed

theorem normalizePath_idempotent_iff_witness:
  "normalizePath ''/webhook/agent'' = ''agent''
   \<and> normalizePath (normalizePath ''/webhook/agent'') = normalizePath ''/webhook/agent''"
proof -
  have n: "normalizePath ''/webhook/agent'' = ''agent''"
    by (simp add: normalizePath_def stripSlash_def stripWebhook_def)
  have "\<not> prefix ''/'' (normalizePath ''/webhook/agent'')"
    by (simp add: n)
  with normalizePath_idempotent_iff [of "''/webhook/agent''"] n show ?thesis
    by simp
qed

lemma matchesPath_empty: "matchesPath [] m"
  by (simp add: matchesPath_def jsIncludes_def)

text \<open>
  Claim C9. When the path of the input (the URL's path, or the input itself when it is no URL)
  normalises to the empty string and the index is not empty, \<open>findWorkflowByWebhook\<close> returns
  the first mapping of the index: the empty string is contained in every mapping path.
\<close>

theorem findWorkflowByWebhook_empty_path:
  assumes "normalizePath (case urlPathname c u of Some p \<Rightarrow> p | None \<Rightarrow> u) = []"
    and "webhookMappings c \<noteq> []"
  shows "findWorkflowByWebhook c (JStr u) = Inr (Some (hd (webhookMappings c)))"
proof -
  from assms(2) obtain m ms where ms: "webhookMappings c = m # ms"
    by (cases "webhookMappings c") auto
  show ?thesis
    using assms(1)
    by (auto simp: findWorkflowByWebhook_def pathOf_def ms matchesPath_empty split: option.splits)
qed

theorem findWorkflowByWebhook_empty_path_witness:
  "findWorkflowByWebhook indexed (JStr ''/webhook'') = Inr (Some (hd agentMappings))
   \<and> findWorkflowByWebhook indexed (JStr ''/'') = Inr (Some (hd agentMappings))
   \<and> findWorkflowByWebhook indexed (JStr []) = Inr (Some (hd agentMappings))
   \<and> findWorkflowByWebhook indexed (JStr ''https://host/webhook'') = Inr (Some (hd agentMappings))
   \<and> webhookMappings indexed \<noteq> []"
proof -
  have m: "webhookMappings indexed = agentMappings" "urlPathname indexed = urlPaths"
    by (simp_all add: indexed_def newCorrelator_def)
  have ne: "webhookMappings indexed \<noteq> []"
    by (simp add: m agentMappings_def)
  have n: "normalizePath ''/webhook'' = []" "normalizePath ''/'' = []" "normalizePath [] = []"
    by (simp_all add: normalizePath_def stripWebhook_def stripSlash_def)
  have 1: "findWorkflowByWebhook indexed (JStr ''/webhook'') = Inr (Some (hd agentMappings))"
    using findWorkflowByWebhook_empty_path [where c = indexed and u = "''/webhook''"] ne
    by (simp add: m urlPaths_def n)
  have 2: "findWorkflowByWebhook indexed (JStr ''/'') = Inr (Some (hd agentMappings))"
    using findWorkflowByWebhook_empty_path [where c = indexed and u = "''/''"] ne
    by (simp add: m urlPaths_def n)
  have 3: "findWorkflowByWebhook indexed (JStr []) = Inr (Some (hd agentMappings))"
    using findWorkflowByWebhook_empty_path [where c = indexed and u = "[]"] ne
    by (simp add: m urlPaths_def n)
  have 4: "findWorkflowByWebhook indexed (JStr ''https://host/webhook'') = Inr (Some (hd agentMappings))"
    using findWorkflowByWebhook_empty_path [where c = indexed and u = "''https://host/webhook''"] ne
    by (simp add: m urlPaths_def n)
  from 1 2 3 4 ne show ?thesis by simp
qed

section \<open>The webhook scorer\<close>

lemma below_mono: "below d a \<Longrightarrow> a \<le> b \<Longrightarrow> below d b"
  by (cases d) (auto simp: below_def)

lemma bump_foldl:
  "bump cond w name (foldl fadd 0 ws, ns)
     = (foldl fadd 0 (ws @ (if cond then [w] else [])), ns @ (if cond then [name] else []))"
  by (simp add: bump_def)

lemma webhookTimeBonus_foldl:
  "webhookTimeBonus d (foldl fadd 0 ws, ns)
     = (foldl fadd 0 (ws @ (if below d 500 then [d0_3] else [])
                         @ (if \<not> below d 500 \<and> below d 2000 then [d0_2] else [])
                         @ (if \<not> below d 2000 \<and> below d 5000 then [d0_1] else [])),
        ns @ (if below d 500 then [''timestamp_exact''] else [])
           @ (if \<not> below d 500 \<and> below d 2000 then [''timestamp_close''] else [])
           @ (if \<not> below d 2000 \<and> below d 5000 then [''timestamp''] else []))"
  using below_mono [of d 500 2000]
  by (auto simp: webhookTimeBonus_def bump_def)

lemma filter_fst_Cons:
  "filter fst ((b, x) # xs) = (if b then [(b, x)] else []) @ filter fst xs"
  by simp

lemma map_if_single: "map f (if b then [x] else []) = (if b then [f x] else [])"
  by simp

lemma scoreCorrelation_spec:
  "scoreCorrelation parent candidate parentContext httpCall = specScore candidate parentContext httpCall"
proof -
  have start: "bump True d0_3 ''webhook_url'' (0, []) = (foldl fadd 0 [d0_3], [''webhook_url''])"
    by (simp add: bump_def)
  show ?thesis
    unfolding scoreCorrelation_def specScore_def specSignals_def Let_def start
      webhookTimeBonus_foldl bump_foldl
    by (simp only: filter_fst_Cons filter.simps(1) map_append map_if_single fst_conv snd_conv
        append_Nil2 append_assoc if_True append_Cons append_Nil list.map)
qed

lemma fadd_3_3_3: "fadd (fadd d0_3 d0_3) d0_3 = d0_9_pred"
  by (simp add: fadd_def round53_def excess.simps d0_3_def d0_9_pred_def Let_def)

lemma fadd_0: "fadd 0 w = round53 w"
  by (simp add: fadd_def)

lemma round53_d0_3: "round53 d0_3 = d0_3"
  by (simp add: round53_def excess.simps d0_3_def Let_def)

lemma agentRoot_context:
  "extractUserContext agentRoot
     = \<lparr>userId = Some ''u1'', chatId = None, correlationId = None, responseId = None\<rparr>"
  by (simp add: extractUserContext_def agentRoot_def mainOutput_def
      readPayload_def readIds_def found_def truthyStr_def noContext_def)

lemma agentCandidate_context:
  "extractUserContext agentCandidate
     = \<lparr>userId = Some ''u1'', chatId = None, correlationId = None, responseId = None\<rparr>"
  by (simp add: extractUserContext_def agentCandidate_def mainOutput_def
      readPayload_def readIds_def found_def truthyStr_def noContext_def)

lemma agentRoot_calls: "extractHttpCalls agentRoot = [agentCall]"
  by (simp add: extractHttpCalls_def agentRoot_def agentCall_def callsOfRun_def mainOutput_def
      orElse_def)

lemma scoreCorrelation_exact_user:
  assumes "e_startedAt candidate = Some (c_timestamp httpCall + 300)"
    and "sameId (userId parentContext) (userId (extractUserContext candidate))"
    and "\<not> sameId (chatId parentContext) (chatId (extractUserContext candidate))"
    and "\<not> sameId (correlationId parentContext) (correlationId (extractUserContext candidate))"
    and "\<not> samePattern (responseId parentContext) (responseId (extractUserContext candidate))"
  shows "scoreCorrelation parent candidate parentContext httpCall
          = \<lparr>confidence = d0_9_pred, method_label = ''webhook_url+timestamp_exact+user_id''\<rparr>"
proof -
  from assms have "scoreCorrelation parent candidate parentContext httpCall
          = \<lparr>confidence = min d0_9_pred d1_0, method_label = ''webhook_url+timestamp_exact+user_id''\<rparr>"
    by (simp add: scoreCorrelation_def bump_def webhookTimeBonus_def timeDiffOf_def below_def
        fadd_0 round53_d0_3 fadd_3_3_3)
  then show ?thesis
    by (simp add: d0_9_pred_def d1_0_def)
qed

lemma agent_signals:
  "e_startedAt agentCandidate = Some (c_timestamp agentCall + 300)
   \<and> sameId (userId (extractUserContext agentRoot)) (userId (extractUserContext agentCandidate))
   \<and> \<not> sameId (chatId (extractUserContext agentRoot)) (chatId (extractUserContext agentCandidate))
   \<and> \<not> sameId (correlationId (extractUserContext agentRoot))
         (correlationId (extractUserContext agentCandidate))
   \<and> \<not> samePattern (responseId (extractUserContext agentRoot))
         (responseId (extractUserContext agentCandidate))"
  by (simp add: agentRoot_context agentCandidate_context sameId_def samePattern_def truthyStr_def)
    (simp add: agentCandidate_def agentCall_def)

text \<open>
  Claim C3, as stated, says that in the scenario (a candidate starting 300 ms after the call,
  only the user id matching) the confidence is \<^verbatim>\<open>0.9\<close>. In binary64 the sum
  \<^verbatim>\<open>0.3 + 0.3 + 0.3\<close> is not the number \<^verbatim>\<open>0.9\<close>.
\<close>

theorem scoreCorrelation_point_nine_counterexample:
  "extractHttpCalls agentRoot = [agentCall]
   \<and> e_startedAt agentCandidate = Some (c_timestamp agentCall + 300)
   \<and> userId (extractUserContext agentCandidate) = userId (extractUserContext agentRoot)
   \<and> confidence (scoreCorrelation agentRoot agentCandidate (extractUserContext agentRoot) agentCall)
        \<noteq> d0_9"
proof -
  have "scoreCorrelation agentRoot agentCandidate (extractUserContext agentRoot) agentCall
          = \<lparr>confidence = d0_9_pred, method_label = ''webhook_url+timestamp_exact+user_id''\<rparr>"
    using agent_signals by (intro scoreCorrelation_exact_user) simp_all
  moreover have "d0_9_pred \<noteq> d0_9"
    by (simp add: d0_9_pred_def d0_9_def)
  ultimately show ?thesis
    using agent_signals
    by (simp add: agentRoot_calls agentRoot_context agentCandidate_context)
qed

text \<open>
  Claim C3, amended. The webhook scorer returns the capped sum of the weight table (base, the
  timestamp bonus against the call's own timestamp, then user id, chat id, correlation id and
  response pattern, an identifier counting when the parent's is non-empty and the candidate's
  equals it) and the \<open>+\<close>-joined names of the contributing signals in that order. In
  particular, for a candidate starting 300 ms after the call with only the user id matching,
  the label is \<^verbatim>\<open>webhook_url+timestamp_exact+user_id\<close> and the confidence is the binary64
  sum \<^verbatim>\<open>0.3 + 0.3 + 0.3\<close>, the number just below \<^verbatim>\<open>0.9\<close>.
\<close>

theorem scoreCorrelation_weights:
  "scoreCorrelation parent candidate parentContext httpCall
     = specScore candidate parentContext httpCall
   \<and> (e_startedAt candidate = Some (c_timestamp httpCall + 300)
        \<and> sameId (userId parentContext) (userId (extractUserContext candidate))
        \<and> \<not> sameId (chatId parentContext) (chatId (extractUserContext candidate))
        \<and> \<not> sameId (correlationId parentContext) (correlationId (extractUserContext candidate))
        \<and> \<not> samePattern (responseId parentContext) (responseId (extractUserContext candidate))
      \<longrightarrow> scoreCorrelation parent candidate parentContext httpCall
            = \<lparr>confidence = d0_9_pred, method_label = ''webhook_url+timestamp_exact+user_id''\<rparr>
          \<and> d0_9_pred = fadd (fadd d0_3 d0_3) d0_3 \<and> d0_9_pred < d0_9)"
proof (intro conjI impI)
  show "scoreCorrelation parent candidate parentContext httpCall
          = specScore candidate parentContext httpCall"
    by (rule scoreCorrelation_spec)
next
  assume "e_startedAt candidate = Some (c_timestamp httpCall + 300)
        \<and> sameId (userId parentContext) (userId (extractUserContext candidate))
        \<and> \<not> sameId (chatId parentContext) (chatId (extractUserContext candidate))
        \<and> \<not> sameId (correlationId parentContext) (correlationId (extractUserContext candidate))
        \<and> \<not> samePattern (responseId parentContext) (responseId (extractUserContext candidate))"
  then show "scoreCorrelation parent candidate parentContext httpCall
          = \<lparr>confidence = d0_9_pred, method_label = ''webhook_url+timestamp_exact+user_id''\<rparr>"
    by (intro scoreCorrelation_exact_user) simp_all
next
  show "d0_9_pred = fadd (fadd d0_3 d0_3) d0_3"
    by (simp add: fadd_3_3_3)
next
  show "d0_9_pred < d0_9"
    by (simp add: d0_9_pred_def d0_9_def)
qed

theorem scoreCorrelation_weights_witness:
  "scoreCorrelation agentRoot agentCandidate (extractUserContext agentRoot) agentCall
     = \<lparr>confidence = d0_9_pred, method_label = ''webhook_url+timestamp_exact+user_id''\<rparr>
   \<and> e_startedAt agentCandidate = Some (c_timestamp agentCall + 300)"
  using scoreCorrelation_weights [of agentRoot agentCandidate "extractUserContext agentRoot" agentCall]
    agent_signals
  by blast

section \<open>A proof rule for the search\<close>

text \<open>
  Properties of the search are relations \<open>Q d p s r\<close> between the state \<open>s\<close> in which
  \<open>findCorrelatedExecutions\<close> is entered at depth \<open>d\<close> with parent id \<open>p\<close>, and the result
  \<open>r\<close> it leaves. Such a relation holds of every call when it holds of doing nothing, is
  closed under sequencing, holds of the two exceptions the body raises itself and of a request
  for a list of executions, and passes from the recursive call on an accepted candidate to
  the call that accepted it.
\<close>

lemma forEach_rule:
  assumes refl: "\<And>s. Q s (s, None)"
    and trans: "\<And>s s1 r. Q s (s1, None) \<Longrightarrow> Q s1 r \<Longrightarrow> Q s r"
    and body: "\<And>x s. x \<in> set xs \<Longrightarrow> Q s (body x s)"
  shows "Q s (forEach body xs s)"
  using body
proof (induction xs arbitrary: s)
  case Nil
  show ?case by (simp add: refl)
next
  case (Cons x xs)
  obtain s' failed where b: "body x s = (s', failed)" by (cases "body x s")
  have q: "Q s (s', failed)" using Cons.prems [of x s] b by simp
  show ?case
  proof (cases failed)
    case None
    have "Q s' (forEach body xs s')" using Cons.prems by (intro Cons.IH) simp
    with q None show ?thesis using trans b by auto
  next
    case (Some err)
    with q b show ?thesis by simp
  qed
qed

lemma fadd_sub_values:
  "fadd 0 (21617278211378380::nat) = 21617278211378380"
  "fadd (21617278211378380::nat) (28823037615171176::nat) = 50440315826549552"
  "fadd (50440315826549552::nat) (21617278211378380::nat) = 72057594037927936"
  "fadd (21617278211378380::nat) (21617278211378380::nat) = 43234556422756760"
  "fadd 0 (14411518807585588::nat) = 14411518807585588"
  "fadd (14411518807585588::nat) (28823037615171176::nat) = 43234556422756768"
  "fadd (43234556422756768::nat) (21617278211378380::nat) = 64851834634135152"
  "fadd (14411518807585588::nat) (21617278211378380::nat) = 36028797018963968"
  "fadd 0 (28823037615171176::nat) = 28823037615171176"
  "fadd (28823037615171176::nat) (21617278211378380::nat) = 50440315826549552"
  by (simp_all add: fadd_def round53_def excess.simps Let_def)

lemma subWorkflowScore_le_one: "confidence (subWorkflowScore execStart candidate userContext) \<le> d1_0"
  by (simp add: subWorkflowScore_def subTimeBonus_def bump_def Let_def fadd_sub_values
      d0_2_def d0_3_def d0_4_def d1_0_def)

lemma scoreCorrelation_le_one: "confidence (scoreCorrelation parent candidate parentContext call) \<le> d1_0"
  by (simp add: scoreCorrelation_def Let_def)

lemma search_rule:
  fixes Q :: "int \<Rightarrow> string \<Rightarrow> search_state \<Rightarrow> search_state \<times> error option \<Rightarrow> bool"
  assumes refl: "\<And>d p s. Q d p s (s, None)"
    and trans: "\<And>d p s s1 r. Q d p s (s1, None) \<Longrightarrow> Q d p s1 r \<Longrightarrow> Q d p s r"
    and thrown: "\<And>d p s. Q d p s (s, Some RangeError)" "\<And>d p s. Q d p s (s, Some TypeError)"
    and listed: "\<And>d p s w n. Q d p s (s\<lparr>sent := sent s @ [ListExecutions w n]\<rparr>,
                   (case executionsOf (client c) w n of Inl err \<Rightarrow> Some err | Inr es \<Rightarrow> None))"
    and accepted: "\<And>d p s cand sc r w n es. d < md \<Longrightarrow> executionsOf (client c) w n = Inr es
                   \<Longrightarrow> cand \<in> set es \<Longrightarrow> e_id cand \<notin> visited s
                   \<Longrightarrow> d0_5 < confidence sc \<Longrightarrow> confidence sc \<le> d1_0
                   \<Longrightarrow> Q (d + 1) (e_id cand) (accept cand p sc s) r \<Longrightarrow> Q d p s r"
  shows "Q d p s (findCorrelatedExecutions c tw md d e p s)"
  using assms
proof (induction c tw md d e p s rule: findCorrelatedExecutions.induct)
  case (1 c tw md d e p s)
  show ?case
  proof (cases "md \<le> d")
    case True
    then show ?thesis by (simp add: findCorrelatedExecutions.simps refl)
  next
    case False
    define recurse where "recurse = findCorrelatedExecutions c tw md (d + 1)"
    have IH: "Q (d + 1) i t (recurse x i t)" for x i t
      unfolding recurse_def by (rule "1.IH" [OF False "1.prems"])
    have lt: "d < md" using False by simp
    have wc: "Q d p t (webhookCandidate recurse e p execStart tw uc call cand t)"
      if "executionsOf (client c) w n = Inr es" "cand \<in> set es" for execStart uc call cand t w n es
      unfolding webhookCandidate_def Let_def
      using that lt IH "1.prems"(1,6) scoreCorrelation_le_one
      by (auto split: option.splits)
    have sc: "Q d p t (subCandidate recurse p execStart tw uc cand t)"
      if "executionsOf (client c) w n = Inr es" "cand \<in> set es" for execStart uc cand t w n es
      unfolding subCandidate_def Let_def
      using that lt IH "1.prems"(1,6) subWorkflowScore_le_one
      by (auto split: option.splits)
    have wcall: "Q d p t (webhookCall c recurse e p execStart tw uc call t)" for execStart uc call t
    proof (cases "findWorkflowByWebhook c (c_url call)")
      case (Inl err)
      then have "err = TypeError"
        by (auto simp: findWorkflowByWebhook_def pathOf_def split: option.splits sum.splits json.splits)
      with Inl show ?thesis by (simp add: webhookCall_def "1.prems"(4))
    next
      case (Inr found)
      show ?thesis
      proof (cases found)
        case None
        with Inr show ?thesis by (simp add: webhookCall_def "1.prems"(1))
      next
        case (Some mapping)
        let ?t1 = "t\<lparr>sent := sent t @ [ListExecutions (m_workflowId mapping) 10]\<rparr>"
        show ?thesis
        proof (cases "executionsOf (client c) (m_workflowId mapping) 10")
          case (Inl err)
          with "1.prems"(5) [of d p t "m_workflowId mapping" 10] Inr Some show ?thesis
            by (simp add: webhookCall_def listExecutions_def)
        next
          case Inr2: (Inr es)
          from "1.prems"(5) [of d p t "m_workflowId mapping" 10] Inr2
          have a: "Q d p t (?t1, None)" by simp
          have b: "Q d p ?t1 (forEach (webhookCandidate recurse e p execStart tw uc call) es ?t1)"
            by (rule forEach_rule [where Q = "Q d p"]) (auto intro: "1.prems"(1) "1.prems"(2) wc [OF Inr2])
          from "1.prems"(2) [OF a b] Inr Some Inr2 show ?thesis
            by (simp add: webhookCall_def listExecutions_def)
        qed
      qed
    qed
    have swf: "Q d p t (subWorkflow c recurse e p execStart tw uc w t)" for execStart uc w t
    proof (cases "w = e_workflowId e")
      case True
      then show ?thesis by (simp add: subWorkflow_def "1.prems"(1))
    next
      case False
      let ?t1 = "t\<lparr>sent := sent t @ [ListExecutions w 5]\<rparr>"
      show ?thesis
      proof (cases "executionsOf (client c) w 5")
        case (Inl err)
        with "1.prems"(5) [of d p t w 5] False show ?thesis
          by (simp add: subWorkflow_def listExecutions_def)
      next
        case (Inr es)
        from "1.prems"(5) [of d p t w 5] Inr
        have a: "Q d p t (?t1, None)" by simp
        have b: "Q d p ?t1 (forEach (subCandidate recurse p execStart tw uc) es ?t1)"
          by (rule forEach_rule [where Q = "Q d p"]) (auto intro: "1.prems"(1) "1.prems"(2) sc [OF Inr])
        from "1.prems"(2) [OF a b] False Inr show ?thesis
          by (simp add: subWorkflow_def listExecutions_def)
      qed
    qed
    have ex: "Q d p s (expand c recurse e p tw s)"
    proof (cases "e_startedAt e")
      case None
      then show ?thesis by (simp add: expand_def "1.prems"(3))
    next
      case (Some execStart)
      show ?thesis
      proof (cases "\<not> validTime (execStart - 1000) \<or> \<not> validTime (execStart + tw)")
        case True
        with Some show ?thesis by (auto simp add: expand_def "1.prems"(3))
      next
        case False
        let ?uc = "extractUserContext e"
        let ?w = "forEach (webhookCall c recurse e p execStart tw ?uc) (extractHttpCalls e) s"
        have w: "Q d p s ?w"
          by (rule forEach_rule [where Q = "Q d p"]) (auto intro: "1.prems"(1) "1.prems"(2) wcall)
        obtain s' failed where r: "?w = (s', failed)" by (cases ?w)
        show ?thesis
        proof (cases failed)
          case None
          have "Q d p s' (forEach (subWorkflow c recurse e p execStart tw ?uc) (workflowsWithSubTrigger c) s')"
            by (rule forEach_rule [where Q = "Q d p"]) (auto intro: "1.prems"(1) "1.prems"(2) swf)
          with w r None "1.prems"(2) have
            "Q d p s (forEach (subWorkflow c recurse e p execStart tw ?uc) (workflowsWithSubTrigger c) s')"
            by auto
          with Some False r None show ?thesis
            by (simp add: expand_def Let_def)
        next
          case (Some err)
          with w r \<open>e_startedAt e = Some execStart\<close> False show ?thesis
            by (simp add: expand_def Let_def)
        qed
      qed
    qed
    with False show ?thesis
      by (simp add: findCorrelatedExecutions.simps [of c tw md d e p s] recurse_def)
  qed
qed

section \<open>Building the index\<close>

lemma initWorkflow_None:
  "initWorkflow w c = (c1, None) \<longleftrightarrow>
     indexable (client c) w \<and>
     c1 = c\<lparr>requests := requests c @ [GetWorkflow (w_id w)],
            workflowCache := cacheStep (client c) w (workflowCache c),
            webhookMappings := webhookMappings c @ mappingsFor (client c) w\<rparr>"
  by (auto simp: initWorkflow_def getWorkflow_def indexable_def fullOf_def cacheStep_def
      mappingsFor_def Let_def split: option.splits sum.splits)

lemma initWorkflows_None:
  "initWorkflows ws c = (c1, None) \<longleftrightarrow>
     list_all (indexable (client c)) ws \<and>
     c1 = c\<lparr>requests := requests c @ map (\<lambda>w. GetWorkflow (w_id w)) ws,
            workflowCache := fold (cacheStep (client c)) ws (workflowCache c),
            webhookMappings := webhookMappings c @ concat (map (mappingsFor (client c)) ws)\<rparr>"
proof (induction ws arbitrary: c)
  case Nil
  then show ?case by auto
next
  case (Cons w ws)
  show ?case
  proof (cases "initWorkflow w c")
    case (Pair c' failed)
    show ?thesis
    proof (cases failed)
      case None
      with Pair have step: "initWorkflow w c = (c', None)" by simp
      then have c': "indexable (client c) w"
        "c' = c\<lparr>requests := requests c @ [GetWorkflow (w_id w)],
            workflowCache := cacheStep (client c) w (workflowCache c),
            webhookMappings := webhookMappings c @ mappingsFor (client c) w\<rparr>"
        by (simp_all add: initWorkflow_None)
      have "initWorkflows (w # ws) c = initWorkflows ws c'"
        by (simp add: step)
      then show ?thesis
        using c' by (simp add: Cons.IH)
    next
      case (Some err)
      with Pair have "\<not> indexable (client c) w"
        using initWorkflow_None [of w c c'] 
        by (metis initWorkflow_None option.distinct(1) prod.inject)
      then show ?thesis using Pair Some by simp
    qed
  qed
qed

lemma map_of_fold_cacheStep:
  "map_of (fold (cacheStep a) ws cache) k
     = (if list_ex (\<lambda>w. w_id w = k \<and> fullOf a k \<noteq> None) ws then fullOf a k else map_of cache k)"
  by (induction ws arbitrary: cache)
     (auto simp: cacheStep_def update_conv' split: option.splits)

lemma fold_fixed: "(\<And>x. x \<in> set xs \<Longrightarrow> f x z = z) \<Longrightarrow> fold f xs z = z"
  by (induction xs) auto

lemma cache_settled:
  "fold (cacheStep a) ws (fold (cacheStep a) ws cache) = fold (cacheStep a) ws cache"
proof (rule fold_fixed)
  fix w assume w: "w \<in> set ws"
  show "cacheStep a w (fold (cacheStep a) ws cache) = fold (cacheStep a) ws cache"
  proof (cases "fullOf a (w_id w)")
    case None
    then show ?thesis by (simp add: cacheStep_def)
  next
    case (Some full)
    with w have "list_ex (\<lambda>v. w_id v = w_id w \<and> fullOf a (w_id w) \<noteq> None) ws"
      by (auto simp: list_ex_iff)
    then have "map_of (fold (cacheStep a) ws cache) (w_id w) = Some full"
      by (simp add: map_of_fold_cacheStep Some)
    then show ?thesis
      by (simp add: cacheStep_def Some update_triv)
  qed
qed

section \<open>The scenario of the specification, evaluated\<close>

lemma validateId_W: "validateId ''W1'' t = None" "validateId ''W2'' t = None" "validateId ''100'' t = None"
  by (simp_all add: validateId_def idChar_def)

lemma agent_initialize: "initialize (newCorrelator agentApi urlPaths) = (agentReady, None)"
  by (simp add: initialize_def newCorrelator_def listWorkflows_def agentApi_def initWorkflow_def
      getWorkflow_def validateId_W extractWebhookPaths_def agentReady_def)

lemma agentReady_fields:
  "client agentReady = agentApi" "urlPathname agentReady = urlPaths"
  "webhookMappings agentReady
     = [\<lparr>m_path = ''/agent'', m_workflowId = ''W2'', m_workflowName = ''Agent''\<rparr>]"
  "workflowsWithSubTrigger agentReady = []"
  by (simp_all add: agentReady_def workflowsWithSubTrigger_def hasSubWorkflowTrigger_def)

lemma agentCandidate_calls: "extractHttpCalls agentCandidate = []"
  by (simp add: extractHttpCalls_def agentCandidate_def callsOfRun_def mainOutput_def orElse_def)

lemma agent_times:
  "e_startedAt agentCandidate = Some 1000500" "e_startedAt agentRoot = Some 1000000"
  "e_id agentCandidate = ''200''"
  by (simp_all add: agentCandidate_def agentRoot_def)

lemma agent_candidate_expand:
  "findCorrelatedExecutions agentReady 30000 5 1 agentCandidate ''200'' s = (s, None)"
  by (simp add: findCorrelatedExecutions.simps [of _ _ _ 1] expand_def agent_times validTime_def
      agentCandidate_calls agentReady_fields)

lemma agent_resolve:
  "findWorkflowByWebhook agentReady (c_url agentCall)
     = Inr (Some \<lparr>m_path = ''/agent'', m_workflowId = ''W2'', m_workflowName = ''Agent''\<rparr>)"
  by (simp add: findWorkflowByWebhook_def pathOf_def agentReady_fields agentCall_def urlPaths_def
      normalizePath_def stripWebhook_def stripSlash_def matchesPath_def jsIncludes_def)

lemma agent_score:
  "scoreCorrelation agentRoot agentCandidate (extractUserContext agentRoot) agentCall
     = \<lparr>confidence = d0_9_pred, method_label = ''webhook_url+timestamp_exact+user_id''\<rparr>"
  using agent_signals by (intro scoreCorrelation_exact_user) simp_all

lemma agent_candidate_step:
  "webhookCandidate (findCorrelatedExecutions agentReady 30000 5 1) agentRoot ''100'' 1000000 30000
     (extractUserContext agentRoot) agentCall agentCandidate
     \<lparr>results = [], visited = {''100''}, sent = log\<rparr>
   = (\<lparr>results = [agentResult], visited = {''200'', ''100''}, sent = log\<rparr>, None)"
proof -
  have gt: "d0_5 < d0_9_pred" by (simp add: d0_5_def d0_9_pred_def)
  show ?thesis
    by (simp add: webhookCandidate_def agent_times agent_score gt accept_def
        agent_candidate_expand agentResult_def)
qed

lemma agent_root_expand:
  "findCorrelatedExecutions agentReady 30000 5 0 agentRoot ''100''
     \<lparr>results = [], visited = {''100''}, sent = log\<rparr>
   = (\<lparr>results = [agentResult], visited = {''200'', ''100''},
        sent = log @ [ListExecutions ''W2'' 10]\<rparr>, None)"
proof -
  have l: "executionsOf agentApi ''W2'' 10 = Inr [agentCandidate]"
    by (simp add: agentApi_def)
  show ?thesis
    by (simp add: findCorrelatedExecutions.simps [of _ _ _ 0] expand_def agent_times validTime_def
        agentRoot_calls agentReady_fields webhookCall_def agent_resolve listExecutions_def l
        agent_candidate_step)
qed

lemma agent_search:
  "search agentReady ''100'' 30000 5
     = (\<lparr>results = [agentResult], visited = {''200'', ''100''},
         sent = requests agentReady @ [GetExecution ''100'', ListExecutions ''W2'' 10]\<rparr>, None)"
proof -
  have g: "executionOf agentApi ''100'' = Inr agentRoot"
    by (simp add: agentApi_def)
  show ?thesis
    by (simp add: search_def getExecution_def validateId_W agentReady_fields g agent_root_expand)
qed

section \<open>Invariants of the search\<close>

lemma visitedExact_find:
  "visitedExact root s \<longrightarrow> visitedExact root (fst (findCorrelatedExecutions c tw md d e p s))"
  by (rule search_rule [where Q = "\<lambda>d p s r. visitedExact root s \<longrightarrow> visitedExact root (fst r)"])
     (auto simp: visitedExact_def accept_def resultId_def)

lemma inBounds_find:
  "list_all inBounds (results s)
   \<longrightarrow> list_all inBounds (results (fst (findCorrelatedExecutions c tw md d e p s)))"
  by (rule search_rule [where Q = "\<lambda>d p s r. list_all inBounds (results s)
                                      \<longrightarrow> list_all inBounds (results (fst r))"])
     (auto simp: inBounds_def accept_def)

lemma search_start:
  "search c root tw md = (s, failed) \<Longrightarrow>
     (\<exists>err log. getExecution (client c) root (requests c) = (log, Inl err)
        \<and> s = \<lparr>results = [], visited = {root}, sent = log\<rparr> \<and> failed = Some err)
   \<or> (\<exists>e log. getExecution (client c) root (requests c) = (log, Inr e)
        \<and> (s, failed) = findCorrelatedExecutions c tw md 0 e root
                           \<lparr>results = [], visited = {root}, sent = log\<rparr>)"
  by (auto simp: search_def split: prod.splits sum.splits)

lemma search_visitedExact: "search c root tw md = (s, failed) \<Longrightarrow> visitedExact root s"
proof -
  assume a: "search c root tw md = (s, failed)"
  have init: "visitedExact root \<lparr>results = [], visited = {root}, sent = log\<rparr>" for log
    by (simp add: visitedExact_def)
  from search_start [OF a] show ?thesis
  proof (elim disjE exE conjE)
    fix err log assume "s = \<lparr>results = [], visited = {root}, sent = log\<rparr>"
    then show ?thesis by (simp add: init)
  next
    fix e log
    assume "(s, failed) = findCorrelatedExecutions c tw md 0 e root
                           \<lparr>results = [], visited = {root}, sent = log\<rparr>"
    then have "s = fst (findCorrelatedExecutions c tw md 0 e root
                           \<lparr>results = [], visited = {root}, sent = log\<rparr>)"
      by (metis fst_conv)
    with visitedExact_find [of root "\<lparr>results = [], visited = {root}, sent = log\<rparr>" c tw md 0 e root]
      init show ?thesis by simp
  qed
qed

section \<open>What correlateExecutions returns\<close>

lemma correlateExecutions_Inr:
  assumes "correlateExecutions c root opts = (c', Inr rs)"
  shows "\<exists>c1 tw md s. search c1 root tw md = (s, None) \<and> rs = results s
           \<and> md = (case maxDepth opts of None \<Rightarrow> 5 | Some d \<Rightarrow> d)"
  using assms
  by (auto simp: correlateExecutions_def Let_def split: prod.splits option.splits if_splits)

lemma agent_search_final: "search agentReady ''100'' 30000 5 = (agentFinal, None)"
proof -
  have "requests agentReady = [ListWorkflows, GetWorkflow ''W1'', GetWorkflow ''W2'']"
    by (simp add: agentReady_def)
  then show ?thesis
    by (simp add: agent_search agentFinal_def)
qed

lemma agent_correlate:
  "correlateExecutions agentReady ''100'' \<lparr>timeWindowMs = None, maxDepth = None\<rparr>
     = (agentReady\<lparr>requests := sent agentFinal\<rparr>, Inr [agentResult])"
  by (simp add: correlateExecutions_def agentReady_fields agent_search_final)
    (simp add: agentFinal_def)

lemma agent_correlate_zero:
  "correlateExecutions agentReady ''100'' \<lparr>timeWindowMs = None, maxDepth = Some 0\<rparr>
     = (agentReady\<lparr>requests := requests agentReady @ [GetExecution ''100'']\<rparr>, Inr [])"
proof -
  have g: "executionOf agentApi ''100'' = Inr agentRoot"
    by (simp add: agentApi_def)
  show ?thesis
    by (simp add: correlateExecutions_def agentReady_fields search_def getExecution_def validateId_W g
        findCorrelatedExecutions.simps [of _ _ 0 0])
qed

section \<open>The visited-set\<close>

text \<open>
  Claim C1. When a search completes, the ids of its results are pairwise distinct and differ
  from the root id, and the visited-set is the root id together with exactly those ids (so it
  has one element more than there are results). A candidate whose id is in the visited-set
  is passed over by both passes without the recursive call: it is expanded at most once, when
  its result is recorded.
\<close>

theorem search_visited_exact:
  "(search c rootExecutionId tw md = (s, None) \<longrightarrow>
       distinct (map resultId (results s))
     \<and> rootExecutionId \<notin> set (map resultId (results s))
     \<and> visited s = insert rootExecutionId (set (map resultId (results s)))
     \<and> card (visited s) = Suc (length (results s)))
   \<and> (correlateExecutions c rootExecutionId opts = (c', Inr rs) \<longrightarrow>
       distinct (map resultId rs) \<and> rootExecutionId \<notin> set (map resultId rs))
   \<and> (e_id candidate \<in> visited s0 \<longrightarrow>
       webhookCandidate recurse execution parentId execStart tw uc call candidate s0 = (s0, None)
     \<and> subCandidate recurse parentId execStart tw uc candidate s0 = (s0, None))"
proof (intro conjI impI)
  assume a: "search c rootExecutionId tw md = (s, None)"
  from search_visitedExact [OF a]
  have v: "distinct (map resultId (results s))"
    "rootExecutionId \<notin> set (map resultId (results s))"
    "visited s = insert rootExecutionId (set (map resultId (results s)))"
    by (simp_all add: visitedExact_def)
  from v show "distinct (map resultId (results s))"
    and "rootExecutionId \<notin> set (map resultId (results s))"
    and "visited s = insert rootExecutionId (set (map resultId (results s)))"
    by simp_all
  have "card (set (map resultId (results s))) = length (results s)"
    using v(1) distinct_card by fastforce
  with v(2,3) show "card (visited s) = Suc (length (results s))"
    by simp
next
  assume "correlateExecutions c rootExecutionId opts = (c', Inr rs)"
  from correlateExecutions_Inr [OF this] obtain c1 tw1 md1 s1 where
    s1: "search c1 rootExecutionId tw1 md1 = (s1, None)" "rs = results s1"
    by blast
  from search_visitedExact [OF s1(1)] s1(2)
  show "distinct (map resultId rs)" and "rootExecutionId \<notin> set (map resultId rs)"
    by (simp_all add: visitedExact_def)
next
  assume "e_id candidate \<in> visited s0"
  then show "webhookCandidate recurse execution parentId execStart tw uc call candidate s0 = (s0, None)"
    and "subCandidate recurse parentId execStart tw uc candidate s0 = (s0, None)"
    by (simp_all add: webhookCandidate_def subCandidate_def)
qed

theorem search_visited_exact_witness:
  "search agentReady ''100'' 30000 5 = (agentFinal, None)
   \<and> visited agentFinal = insert ''100'' (set (map resultId (results agentFinal)))
   \<and> distinct (map resultId (results agentFinal))
   \<and> card (visited agentFinal) = 2
   \<and> correlateExecutions agentReady ''100'' \<lparr>timeWindowMs = None, maxDepth = None\<rparr>
       = (agentReady\<lparr>requests := sent agentFinal\<rparr>, Inr [agentResult])
   \<and> distinct (map resultId [agentResult]) \<and> ''100'' \<notin> set (map resultId [agentResult])
   \<and> e_id agentCandidate \<in> visited agentFinal
   \<and> subCandidate (\<lambda>candidate ident s. (s, Some TypeError)) ''100'' 1000000 30000
        (extractUserContext agentRoot) agentCandidate agentFinal = (agentFinal, None)"
proof -
  have v: "e_id agentCandidate \<in> visited agentFinal"
    by (simp add: agentFinal_def agentCandidate_def)
  have l: "length (results agentFinal) = 1"
    by (simp add: agentFinal_def)
  note t = search_visited_exact
    [where c = agentReady and rootExecutionId = "''100''" and tw = 30000 and md = 5
       and s = agentFinal and candidate = agentCandidate and ?s0.0 = agentFinal
       and opts = "\<lparr>timeWindowMs = None, maxDepth = None\<rparr>"
       and c' = "agentReady\<lparr>requests := sent agentFinal\<rparr>" and rs = "[agentResult]"
       and recurse = "\<lambda>candidate ident s. (s, Some TypeError)" and parentId = "''100''"
       and execStart = 1000000 and uc = "extractUserContext agentRoot"]
  from t agent_search_final have A:
    "visited agentFinal = insert ''100'' (set (map resultId (results agentFinal)))"
    "distinct (map resultId (results agentFinal))"
    "card (visited agentFinal) = Suc (length (results agentFinal))"
    by blast+
  from A(3) l have C: "card (visited agentFinal) = 2"
    by simp
  from t v have B: "subCandidate (\<lambda>candidate ident s. (s, Some TypeError)) ''100'' 1000000 30000
        (extractUserContext agentRoot) agentCandidate agentFinal = (agentFinal, None)"
    by blast
  from t agent_correlate have D:
    "distinct (map resultId [agentResult]) \<and> ''100'' \<notin> set (map resultId [agentResult])"
    by blast
  from agent_search_final A(1,2) C v B D agent_correlate show ?thesis
    by blast
qed

section \<open>Confidence bounds and acceptance\<close>

lemma subTimeBonus_foldl:
  "subTimeBonus d (foldl fadd 0 ws, ns)
     = (foldl fadd 0 (ws @ (if below d 2000 then [d0_3] else [])
                         @ (if \<not> below d 2000 \<and> below d 5000 then [d0_2] else [])),
        ns @ (if below d 2000 then [''timestamp''] else [])
           @ (if \<not> below d 2000 \<and> below d 5000 then [''timestamp''] else []))"
  by (auto simp: subTimeBonus_def bump_def)

lemma subWorkflowScore_spec:
  "subWorkflowScore execStart candidate userContext = specSubScore execStart candidate userContext"
proof -
  have start: "subTimeBonus d (0, [])
     = (foldl fadd 0 ([] @ (if below d 2000 then [d0_3] else [])
                         @ (if \<not> below d 2000 \<and> below d 5000 then [d0_2] else [])),
        [] @ (if below d 2000 then [''timestamp''] else [])
           @ (if \<not> below d 2000 \<and> below d 5000 then [''timestamp''] else []))" for d
    using subTimeBonus_foldl [of d "[]" "[]"] by simp
  show ?thesis
    unfolding subWorkflowScore_def specSubScore_def specSubSignals_def Let_def start bump_foldl
    by (simp only: filter_fst_Cons filter.simps(1) map_append map_if_single fst_conv snd_conv
          append_Nil2 append_assoc if_True append_Cons append_Nil list.map)
qed

lemma search_inBounds: "search c root tw md = (s, failed) \<Longrightarrow> list_all inBounds (results s)"
proof -
  assume a: "search c root tw md = (s, failed)"
  from search_start [OF a] show ?thesis
  proof (elim disjE exE conjE)
    fix err log assume "s = \<lparr>results = [], visited = {root}, sent = log\<rparr>"
    then show ?thesis by simp
  next
    fix e log
    assume "(s, failed) = findCorrelatedExecutions c tw md 0 e root
                           \<lparr>results = [], visited = {root}, sent = log\<rparr>"
    then have "s = fst (findCorrelatedExecutions c tw md 0 e root
                           \<lparr>results = [], visited = {root}, sent = log\<rparr>)"
      by (metis fst_conv)
    with inBounds_find [of "\<lparr>results = [], visited = {root}, sent = log\<rparr>" c tw md 0 e root]
    show ?thesis by simp
  qed
qed

text \<open>
  Claim C2. Every result a search records, and so every result \<open>correlateExecutions\<close> returns,
  has a confidence above \<^verbatim>\<open>0.5\<close> and at most \<^verbatim>\<open>1.0\<close>. In the webhook pass a candidate that
  is not visited and lies in the window is recorded and recursed into exactly when the capped
  sum of the weight table exceeds \<^verbatim>\<open>0.5\<close>; in the sub-workflow pass, exactly when the uncapped
  sum does; otherwise the state is left as it is.
\<close>

theorem results_confidence_bounds:
  "(search c root tw md = (s, failed) \<longrightarrow> list_all inBounds (results s))
   \<and> (correlateExecutions c root opts = (c', Inr rs) \<longrightarrow> list_all inBounds rs)
   \<and> (e_id candidate \<notin> visited s0
        \<and> \<not> (case e_startedAt candidate of None \<Rightarrow> False
                | Some t \<Rightarrow> t < execStart - 1000 \<or> t > execStart + tw) \<longrightarrow>
       webhookCandidate recurse execution parentId execStart tw uc call candidate s0
         = (if d0_5 < confidence (specScore candidate uc call)
            then recurse candidate (e_id candidate)
                   (accept candidate parentId (specScore candidate uc call) s0)
            else (s0, None)))
   \<and> (e_id candidate \<notin> visited s0
        \<and> \<not> (case e_startedAt candidate of None \<Rightarrow> False
                | Some t \<Rightarrow> t < execStart \<or> t > execStart + tw) \<longrightarrow>
       subCandidate recurse parentId execStart tw uc candidate s0
         = (if d0_5 < confidence (specSubScore execStart candidate uc)
            then recurse candidate (e_id candidate)
                   (accept candidate parentId (specSubScore execStart candidate uc) s0)
            else (s0, None)))"
proof (intro conjI impI)
  assume "search c root tw md = (s, failed)"
  then show "list_all inBounds (results s)"
    by (rule search_inBounds)
next
  assume "correlateExecutions c root opts = (c', Inr rs)"
  from correlateExecutions_Inr [OF this] obtain c1 tw1 md1 s1 where
    s1: "search c1 root tw1 md1 = (s1, None)" "rs = results s1"
    by blast
  from search_inBounds [OF s1(1)] s1(2) show "list_all inBounds rs"
    by simp
next
  assume "e_id candidate \<notin> visited s0
        \<and> \<not> (case e_startedAt candidate of None \<Rightarrow> False
                | Some t \<Rightarrow> t < execStart - 1000 \<or> t > execStart + tw)"
  then show "webhookCandidate recurse execution parentId execStart tw uc call candidate s0
         = (if d0_5 < confidence (specScore candidate uc call)
            then recurse candidate (e_id candidate)
                   (accept candidate parentId (specScore candidate uc call) s0)
            else (s0, None))"
    by (simp add: webhookCandidate_def scoreCorrelation_spec Let_def)
next
  assume "e_id candidate \<notin> visited s0
        \<and> \<not> (case e_startedAt candidate of None \<Rightarrow> False
                | Some t \<Rightarrow> t < execStart \<or> t > execStart + tw)"
  then show "subCandidate recurse parentId execStart tw uc candidate s0
         = (if d0_5 < confidence (specSubScore execStart candidate uc)
            then recurse candidate (e_id candidate)
                   (accept candidate parentId (specSubScore execStart candidate uc) s0)
            else (s0, None))"
    by (simp add: subCandidate_def subWorkflowScore_spec Let_def)
qed

lemma agent_subScore:
  "specSubScore 1000000 agentCandidate (extractUserContext agentRoot)
     = \<lparr>confidence = 50440315826549552, method_label = ''timestamp+user_id''\<rparr>"
  by (simp add: specSubScore_def specSubSignals_def agentRoot_context agentCandidate_context
      agent_times timeDiffOf_def below_def sameId_def truthyStr_def fadd_sub_values
      d0_3_def d0_4_def)

theorem results_confidence_bounds_witness:
  "list_all inBounds (results agentFinal)
   \<and> correlateExecutions agentReady ''100'' \<lparr>timeWindowMs = None, maxDepth = None\<rparr>
       = (agentReady\<lparr>requests := sent agentFinal\<rparr>, Inr [agentResult])
   \<and> list_all inBounds [agentResult]
   \<and> webhookCandidate (\<lambda>candidate ident s. (s, None)) agentRoot ''100'' 1000000 30000
        (extractUserContext agentRoot) agentCall agentCandidate
        \<lparr>results = [], visited = {''100''}, sent = []\<rparr>
       = (accept agentCandidate ''100''
            \<lparr>confidence = d0_9_pred, method_label = ''webhook_url+timestamp_exact+user_id''\<rparr>
            \<lparr>results = [], visited = {''100''}, sent = []\<rparr>, None)
   \<and> subCandidate (\<lambda>candidate ident s. (s, None)) ''100'' 1000000 30000
        (extractUserContext agentRoot) agentCandidate
        \<lparr>results = [], visited = {''100''}, sent = []\<rparr>
       = (accept agentCandidate ''100''
            \<lparr>confidence = 50440315826549552, method_label = ''timestamp+user_id''\<rparr>
            \<lparr>results = [], visited = {''100''}, sent = []\<rparr>, None)"
proof -
  have w: "specScore agentCandidate (extractUserContext agentRoot) agentCall
             = \<lparr>confidence = d0_9_pred, method_label = ''webhook_url+timestamp_exact+user_id''\<rparr>"
    using agent_score by (simp add: scoreCorrelation_spec)
  have h: "e_id agentCandidate \<notin> visited \<lparr>results = [], visited = {''100''}, sent = []\<rparr>
        \<and> \<not> (case e_startedAt agentCandidate of None \<Rightarrow> False
                | Some t \<Rightarrow> t < 1000000 - 1000 \<or> t > 1000000 + 30000)"
    "e_id agentCandidate \<notin> visited \<lparr>results = [], visited = {''100''}, sent = []\<rparr>
        \<and> \<not> (case e_startedAt agentCandidate of None \<Rightarrow> False
                | Some t \<Rightarrow> t < 1000000 \<or> t > 1000000 + 30000)"
    by (simp_all add: agent_times)
  have g: "d0_5 < d0_9_pred" "d0_5 < (50440315826549552::nat)"
    by (simp_all add: d0_5_def d0_9_pred_def)
  note t = results_confidence_bounds
    [where c = agentReady and root = "''100''" and tw = 30000 and md = 5 and s = agentFinal
       and failed = None and candidate = agentCandidate
       and opts = "\<lparr>timeWindowMs = None, maxDepth = None\<rparr>"
       and c' = "agentReady\<lparr>requests := sent agentFinal\<rparr>" and rs = "[agentResult]"
       and ?s0.0 = "\<lparr>results = [], visited = {''100''}, sent = []\<rparr>"
       and recurse = "\<lambda>candidate ident s. (s, None)" and parentId = "''100''"
       and execStart = 1000000 and uc = "extractUserContext agentRoot" and call = agentCall
       and execution = agentRoot]
  from t agent_search_final have 1: "list_all inBounds (results agentFinal)"
    by blast
  from t h(1) have 2: "webhookCandidate (\<lambda>candidate ident s. (s, None)) agentRoot ''100'' 1000000 30000
        (extractUserContext agentRoot) agentCall agentCandidate
        \<lparr>results = [], visited = {''100''}, sent = []\<rparr>
       = (accept agentCandidate ''100''
            \<lparr>confidence = d0_9_pred, method_label = ''webhook_url+timestamp_exact+user_id''\<rparr>
            \<lparr>results = [], visited = {''100''}, sent = []\<rparr>, None)"
    by (simp add: w g)
  from t h(2) have 3: "subCandidate (\<lambda>candidate ident s. (s, None)) ''100'' 1000000 30000
        (extractUserContext agentRoot) agentCandidate
        \<lparr>results = [], visited = {''100''}, sent = []\<rparr>
       = (accept agentCandidate ''100''
            \<lparr>confidence = 50440315826549552, method_label = ''timestamp+user_id''\<rparr>
            \<lparr>results = [], visited = {''100''}, sent = []\<rparr>, None)"
    by (simp add: agent_subScore g)
  from t agent_correlate have 4: "list_all inBounds [agentResult]"
    by blast
  from 1 2 3 4 agent_correlate show ?thesis by blast
qed

section \<open>Two workflows that trigger one another, evaluated\<close>

lemma loop_fields:
  "e_id (loopExecution i w) = i" "e_startedAt (loopExecution i w) = Some 5000"
  "e_workflowId (loopExecution i w) = w"
  by (simp_all add: loopExecution_def)

lemma loop_context:
  "extractUserContext (loopExecution i w)
     = \<lparr>userId = Some ''u7'', chatId = None, correlationId = None, responseId = None\<rparr>"
  by (simp add: extractUserContext_def loopExecution_def mainOutput_def
      readPayload_def readIds_def found_def truthyStr_def noContext_def)

lemma loop_calls: "extractHttpCalls (loopExecution i w) = []"
  by (simp add: extractHttpCalls_def loopExecution_def callsOfRun_def mainOutput_def orElse_def)

lemma loop_score:
  "subWorkflowScore 5000 (loopExecution i w) (extractUserContext (loopExecution j v))
     = \<lparr>confidence = 50440315826549552, method_label = ''timestamp+user_id''\<rparr>"
  by (simp add: subWorkflowScore_spec specSubScore_def specSubSignals_def loop_context
      loop_fields timeDiffOf_def below_def sameId_def truthyStr_def fadd_sub_values
      d0_3_def d0_4_def)

lemma loopReady_fields:
  "client (loopCorrelator a) = a" "webhookMappings (loopCorrelator a) = []"
  "workflowsWithSubTrigger (loopCorrelator a) = [''WA'', ''WB'']"
  "requests (loopCorrelator a) = [ListWorkflows, GetWorkflow ''WA'', GetWorkflow ''WB'']"
  by (simp_all add: loopCorrelator_def workflowsWithSubTrigger_def hasSubWorkflowTrigger_def
      loopWorkflow_def)

lemma loop_listings:
  "executionsOf loopApi ''WA'' 5 = Inr [loopExecution ''1'' ''WA'', loopExecution ''3'' ''WA'']"
  "executionsOf loopApi ''WB'' 5 = Inr [loopExecution ''2'' ''WB'']"
  "executionsOf brokenApi ''WA'' 5 = Inl (ApiError ''502'')"
  "executionsOf brokenApi ''WB'' 5 = Inr [loopExecution ''2'' ''WB'']"
  "executionOf loopApi ''1'' = Inr (loopExecution ''1'' ''WA'')"
  "executionOf brokenApi ''1'' = Inr (loopExecution ''1'' ''WA'')"
  by (simp_all add: loopApi_def brokenApi_def)

lemma loop_expand:
  "findCorrelatedExecutions (loopCorrelator a) 30000 5 d (loopExecution i w) p s
     = (if 5 \<le> d then (s, None)
        else forEach (subWorkflow (loopCorrelator a)
                        (findCorrelatedExecutions (loopCorrelator a) 30000 5 (d + 1))
                        (loopExecution i w) p 5000 30000 (extractUserContext (loopExecution i w)))
               [''WA'', ''WB''] s)"
  by (simp add: findCorrelatedExecutions.simps [of _ _ _ d] expand_def loop_fields validTime_def Let_def
      loop_calls loopReady_fields)

lemma loop_candidate:
  "subCandidate recurse p 5000 30000 (extractUserContext (loopExecution j v)) (loopExecution i w) s
     = (if i \<in> visited s then (s, None)
        else recurse (loopExecution i w) i
               (s\<lparr>visited := insert i (visited s), results := results s @ [loopResult i w p]\<rparr>))"
proof -
  have gt: "d0_5 < (50440315826549552::nat)" by (simp add: d0_5_def)
  show ?thesis
    by (simp add: subCandidate_def loop_fields loop_score gt accept_def loopResult_def)
qed

lemma loop_third:
  "findCorrelatedExecutions (loopCorrelator loopApi) 30000 5 2 (loopExecution ''3'' ''WA'') ''3''
     \<lparr>results = rs, visited = {''3'', ''2'', ''1''}, sent = log\<rparr>
   = (\<lparr>results = rs, visited = {''3'', ''2'', ''1''}, sent = log @ [ListExecutions ''WB'' 5]\<rparr>, None)"
  by (simp add: loop_expand subWorkflow_def loop_fields loopReady_fields listExecutions_def
      loop_listings loop_candidate)

lemma loop_second:
  "findCorrelatedExecutions (loopCorrelator loopApi) 30000 5 1 (loopExecution ''2'' ''WB'') ''2''
     \<lparr>results = rs, visited = {''2'', ''1''}, sent = log\<rparr>
   = (\<lparr>results = rs @ [loopResult ''3'' ''WA'' ''2''], visited = {''3'', ''2'', ''1''},
        sent = log @ [ListExecutions ''WA'' 5, ListExecutions ''WB'' 5]\<rparr>, None)"
  by (simp add: loop_expand subWorkflow_def loop_fields loopReady_fields listExecutions_def
      loop_listings loop_candidate loop_third)

lemma loop_first:
  "findCorrelatedExecutions (loopCorrelator loopApi) 30000 5 0 (loopExecution ''1'' ''WA'') ''1''
     \<lparr>results = [], visited = {''1''}, sent = log\<rparr>
   = (\<lparr>results = [loopResult ''2'' ''WB'' ''1'', loopResult ''3'' ''WA'' ''2''],
        visited = {''3'', ''2'', ''1''},
        sent = log @ [ListExecutions ''WB'' 5, ListExecutions ''WA'' 5, ListExecutions ''WB'' 5]\<rparr>,
      None)"
  by (simp add: loop_expand subWorkflow_def loop_fields loopReady_fields listExecutions_def
      loop_listings loop_candidate loop_second)

lemma broken_second:
  "findCorrelatedExecutions (loopCorrelator brokenApi) 30000 5 1 (loopExecution ''2'' ''WB'') ''2''
     \<lparr>results = rs, visited = {''2'', ''1''}, sent = log\<rparr>
   = (\<lparr>results = rs, visited = {''2'', ''1''}, sent = log @ [ListExecutions ''WA'' 5]\<rparr>,
      Some (ApiError ''502''))"
  by (simp add: loop_expand subWorkflow_def loop_fields loopReady_fields listExecutions_def
      loop_listings)

lemma broken_first:
  "findCorrelatedExecutions (loopCorrelator brokenApi) 30000 5 0 (loopExecution ''1'' ''WA'') ''1''
     \<lparr>results = [], visited = {''1''}, sent = log\<rparr>
   = (\<lparr>results = [loopResult ''2'' ''WB'' ''1''], visited = {''2'', ''1''},
        sent = log @ [ListExecutions ''WB'' 5, ListExecutions ''WA'' 5]\<rparr>,
      Some (ApiError ''502''))"
  by (simp add: loop_expand subWorkflow_def loop_fields loopReady_fields listExecutions_def
      loop_listings loop_candidate broken_second)

lemma validateId_loop: "validateId ''WA'' t = None" "validateId ''WB'' t = None" "validateId ''1'' t = None"
  by (simp_all add: validateId_def idChar_def)

lemma loop_initialize:
  "workflowsOf a = workflowsOf loopApi \<Longrightarrow> workflowOf a = workflowOf loopApi \<Longrightarrow>
   initialize (newCorrelator a urlPaths) = (loopCorrelator a, None)"
  by (simp add: initialize_def newCorrelator_def listWorkflows_def loopApi_def initWorkflow_def
      getWorkflow_def validateId_loop extractWebhookPaths_def loopCorrelator_def loopWorkflow_def)

lemma broken_initialize:
  "initialize (newCorrelator brokenApi urlPaths) = (loopCorrelator brokenApi, None)"
  by (rule loop_initialize) (simp_all add: brokenApi_def)

lemma fresh_mappings: "webhookMappings (newCorrelator a parse) = []"
  by (simp add: newCorrelator_def)

lemma loop_search:
  "search (loopCorrelator loopApi) ''1'' 30000 5
     = (\<lparr>results = [loopResult ''2'' ''WB'' ''1'', loopResult ''3'' ''WA'' ''2''],
         visited = {''3'', ''2'', ''1''},
         sent = [ListWorkflows, GetWorkflow ''WA'', GetWorkflow ''WB'', GetExecution ''1'',
                 ListExecutions ''WB'' 5, ListExecutions ''WA'' 5, ListExecutions ''WB'' 5]\<rparr>,
        None)"
  by (simp add: search_def getExecution_def validateId_loop loopReady_fields loop_listings loop_first)

lemma broken_search:
  "search (loopCorrelator brokenApi) ''1'' 30000 5
     = (\<lparr>results = [loopResult ''2'' ''WB'' ''1''], visited = {''2'', ''1''},
         sent = [ListWorkflows, GetWorkflow ''WA'', GetWorkflow ''WB'', GetExecution ''1'',
                 ListExecutions ''WB'' 5, ListExecutions ''WA'' 5]\<rparr>,
        Some (ApiError ''502''))"
  by (simp add: search_def getExecution_def validateId_loop loopReady_fields loop_listings broken_first)

lemma loop_correlate:
  "correlateExecutions (newCorrelator loopApi urlPaths) ''1'' \<lparr>timeWindowMs = None, maxDepth = None\<rparr>
     = ((loopCorrelator loopApi)\<lparr>requests :=
            [ListWorkflows, GetWorkflow ''WA'', GetWorkflow ''WB'', GetExecution ''1'',
             ListExecutions ''WB'' 5, ListExecutions ''WA'' 5, ListExecutions ''WB'' 5]\<rparr>,
        Inr [loopResult ''2'' ''WB'' ''1'', loopResult ''3'' ''WA'' ''2''])"
proof -
  have f: "webhookMappings (newCorrelator loopApi urlPaths) = []"
    by (simp add: newCorrelator_def)
  show ?thesis
    by (simp add: correlateExecutions_def f loop_initialize loop_search)
qed

lemma broken_correlate:
  "correlateExecutions (newCorrelator brokenApi urlPaths) ''1'' \<lparr>timeWindowMs = None, maxDepth = None\<rparr>
     = ((loopCorrelator brokenApi)\<lparr>requests :=
            [ListWorkflows, GetWorkflow ''WA'', GetWorkflow ''WB'', GetExecution ''1'',
             ListExecutions ''WB'' 5, ListExecutions ''WA'' 5]\<rparr>,
        Inl (ApiError ''502''))"
proof -
  have f: "webhookMappings (newCorrelator brokenApi urlPaths) = []"
    by (simp add: newCorrelator_def)
  have i: "initialize (newCorrelator brokenApi urlPaths) = (loopCorrelator brokenApi, None)"
    by (rule loop_initialize) (simp_all add: brokenApi_def)
  show ?thesis
    by (simp add: correlateExecutions_def f i broken_search)
qed

section \<open>The depth bound\<close>

lemma levelled_sent [simp]: "levelled md lev (s\<lparr>sent := l\<rparr>) = levelled md lev s"
  by (simp add: levelled_def)

lemma deepens_refl: "deepens md d p s s"
  unfolding deepens_def by blast

lemma deepens_sent: "deepens md d p s (s\<lparr>sent := l\<rparr>)"
  unfolding deepens_def by (intro allI impI, rule_tac x = lev in exI) simp

lemma deepens_trans:
  assumes "deepens md d p s s1" "deepens md d p s1 s2"
  shows "deepens md d p s s2"
  unfolding deepens_def
proof (intro allI impI)
  fix lev assume a: "levelled md lev s \<and> lev p = d \<and> 0 \<le> d \<and> p \<in> visited s"
  with assms(1) obtain lev1 where l1: "levelled md lev1 s1" "\<forall>x \<in> visited s. lev1 x = lev x"
    "visited s \<subseteq> visited s1"
    unfolding deepens_def by blast
  with a have "levelled md lev1 s1 \<and> lev1 p = d \<and> 0 \<le> d \<and> p \<in> visited s1"
    by auto
  with assms(2) obtain lev2 where l2: "levelled md lev2 s2" "\<forall>x \<in> visited s1. lev2 x = lev1 x"
    "visited s1 \<subseteq> visited s2"
    unfolding deepens_def by blast
  from l1 l2 show "\<exists>lev'. levelled md lev' s2 \<and> (\<forall>x \<in> visited s. lev' x = lev x)
                    \<and> visited s \<subseteq> visited s2"
    by (intro exI [of _ lev2]) auto
qed

lemma deepens_accept:
  assumes d: "d < md" and fresh: "e_id cand \<notin> visited s"
    and rec: "deepens md (d + 1) (e_id cand) (accept cand p sc s) s'"
  shows "deepens md d p s s'"
  unfolding deepens_def
proof (intro allI impI)
  fix lev assume a: "levelled md lev s \<and> lev p = d \<and> 0 \<le> d \<and> p \<in> visited s"
  define lev1 where "lev1 = lev (e_id cand := d + 1)"
  have same: "lev1 x = lev x" if "x \<in> visited s" for x
    using that fresh by (auto simp: lev1_def)
  have "levelled md lev1 (accept cand p sc s)"
    using a d fresh
    by (auto simp: levelled_def accept_def list_all_iff resultId_def lev1_def)
  moreover have "lev1 (e_id cand) = d + 1" "0 \<le> d + 1" "e_id cand \<in> visited (accept cand p sc s)"
    using a by (simp_all add: lev1_def accept_def)
  ultimately obtain lev' where l: "levelled md lev' s'"
    "\<forall>x \<in> visited (accept cand p sc s). lev' x = lev1 x"
    "visited (accept cand p sc s) \<subseteq> visited s'"
    using rec unfolding deepens_def by blast
  have "visited s \<subseteq> visited (accept cand p sc s)"
    by (auto simp: accept_def)
  with l same show "\<exists>lev'. levelled md lev' s' \<and> (\<forall>x \<in> visited s. lev' x = lev x)
                    \<and> visited s \<subseteq> visited s'"
    by (intro exI [of _ lev']) auto
qed

lemma deepens_find:
  "deepens md d p s (fst (findCorrelatedExecutions c tw md d e p s))"
  by (rule search_rule [where Q = "\<lambda>d p s r. deepens md d p s (fst r)"])
     (auto intro: deepens_refl deepens_sent deepens_trans deepens_accept)

lemma chain_level:
  assumes "levelled md lev s" "set ch \<subseteq> set (results s)" "chain p ch" "ch \<noteq> []"
  shows "lev (resultId (last ch)) = lev p + int (length ch)"
  using assms(2-)
proof (induction ch arbitrary: p)
  case Nil
  then show ?case by simp
next
  case (Cons r rs)
  from Cons.prems(1) assms(1) have r: "lev (resultId r) = lev (cr_parentId r) + 1"
    by (auto simp: levelled_def list_all_iff)
  show ?case
  proof (cases rs)
    case Nil
    with r Cons.prems(2) show ?thesis by simp
  next
    case (Cons r' rs')
    with Cons.prems Cons.IH [of "resultId r"] r show ?thesis by simp
  qed
qed

lemma chain_bound:
  assumes "levelled md lev s" "set ch \<subseteq> set (results s)" "chain p ch"
  shows "int (length ch) \<le> md \<or> ch = []"
proof (cases ch)
  case Nil
  then show ?thesis by simp
next
  case (Cons r rs)
  from assms(2) Cons assms(1) have r: "1 \<le> lev (resultId r)" "lev (resultId r) = lev (cr_parentId r) + 1"
    by (auto simp: levelled_def list_all_iff)
  from assms(3) Cons have p: "cr_parentId r = p" by simp
  have "last ch \<in> set (results s)" using assms(2) Cons by (metis last_in_set list.distinct(1) subsetD)
  with assms(1) have top: "lev (resultId (last ch)) \<le> md"
    by (auto simp: levelled_def list_all_iff)
  from chain_level [OF assms] Cons have "lev (resultId (last ch)) = lev p + int (length ch)"
    by simp
  with top r p show ?thesis by simp
qed

lemma search_levelled:
  assumes "search c root tw md = (s, failed)"
  shows "\<exists>lev. levelled md lev s"
proof -
  have init: "levelled md (\<lambda>x. 0) \<lparr>results = [], visited = {root}, sent = log\<rparr>" for log
    by (simp add: levelled_def)
  from search_start [OF assms] show ?thesis
  proof (elim disjE exE conjE)
    fix err log assume "s = \<lparr>results = [], visited = {root}, sent = log\<rparr>"
    with init show ?thesis by blast
  next
    fix e log
    assume "(s, failed) = findCorrelatedExecutions c tw md 0 e root
                           \<lparr>results = [], visited = {root}, sent = log\<rparr>"
    then have s: "s = fst (findCorrelatedExecutions c tw md 0 e root
                           \<lparr>results = [], visited = {root}, sent = log\<rparr>)"
      by (metis fst_conv)
    from deepens_find [of md 0 root "\<lparr>results = [], visited = {root}, sent = log\<rparr>" c tw e] init [of log] s
    show ?thesis
      unfolding deepens_def by (metis (no_types, lifting) insertI1 order_refl search_state.select_convs(2))
  qed
qed

lemma search_depth_zero:
  assumes "search c root tw md = (s, failed)" "md \<le> 0"
  shows "results s = []"
  using assms
  by (auto simp: search_def findCorrelatedExecutions.simps [of _ _ _ 0] split: prod.splits sum.splits)

text \<open>
  Claim C5. \<open>findCorrelatedExecutions\<close> entered at a depth that has reached \<open>maxDepth\<close> returns at
  once and leaves the state as it is, so no result is recorded there. For \<open>maxDepth \<ge> 0\<close>
  every parent-child chain among the results of a search, and among the results
  \<open>correlateExecutions\<close> returns, has at most \<open>maxDepth\<close> links. With \<open>maxDepth = 0\<close> the list
  \<open>correlateExecutions\<close> returns is empty.
\<close>

theorem depth_bound:
  "(md \<le> d \<longrightarrow> findCorrelatedExecutions c tw md d e p s = (s, None))
   \<and> (0 \<le> md \<and> search c root tw md = (s', failed) \<and> set ch \<subseteq> set (results s') \<and> chain q ch
        \<longrightarrow> int (length ch) \<le> md)
   \<and> (0 \<le> (case maxDepth opts of None \<Rightarrow> 5 | Some m \<Rightarrow> m)
        \<and> correlateExecutions c root opts = (c', Inr rs) \<and> set ch \<subseteq> set rs \<and> chain q ch
        \<longrightarrow> int (length ch) \<le> (case maxDepth opts of None \<Rightarrow> 5 | Some m \<Rightarrow> m))
   \<and> (correlateExecutions c root (opts\<lparr>maxDepth := Some 0\<rparr>) = (c0, Inr rs0) \<longrightarrow> rs0 = [])"
proof (intro conjI impI)
  assume "md \<le> d"
  then show "findCorrelatedExecutions c tw md d e p s = (s, None)"
    by (simp add: findCorrelatedExecutions.simps)
next
  assume a: "0 \<le> md \<and> search c root tw md = (s', failed) \<and> set ch \<subseteq> set (results s') \<and> chain q ch"
  then obtain lev where "levelled md lev s'"
    using search_levelled by blast
  from chain_bound [OF this, of ch q] a show "int (length ch) \<le> md"
    by auto
next
  let ?md = "case maxDepth opts of None \<Rightarrow> 5 | Some m \<Rightarrow> m"
  assume a: "0 \<le> ?md \<and> correlateExecutions c root opts = (c', Inr rs) \<and> set ch \<subseteq> set rs \<and> chain q ch"
  from correlateExecutions_Inr [of c root opts c' rs] a obtain c1 tw1 s1 where
    s1: "search c1 root tw1 ?md = (s1, None)" "rs = results s1"
    by blast
  from search_levelled [OF s1(1)] obtain lev where "levelled ?md lev s1"
    by blast
  from chain_bound [OF this, of ch q] a s1(2) show "int (length ch) \<le> ?md"
    by auto
next
  assume a: "correlateExecutions c root (opts\<lparr>maxDepth := Some 0\<rparr>) = (c0, Inr rs0)"
  from correlateExecutions_Inr [OF a] obtain c1 tw1 s1 where
    s1: "search c1 root tw1 0 = (s1, None)" "rs0 = results s1"
    by auto
  from search_depth_zero [OF s1(1)] s1(2) show "rs0 = []"
    by simp
qed

theorem depth_bound_witness:
  "findCorrelatedExecutions agentReady 30000 5 5 agentRoot ''100'' agentFinal = (agentFinal, None)
   \<and> search agentReady ''100'' 30000 5 = (agentFinal, None)
   \<and> chain ''100'' [agentResult] \<and> set [agentResult] \<subseteq> set (results agentFinal)
   \<and> int (length [agentResult]) \<le> 5
   \<and> correlateExecutions agentReady ''100'' \<lparr>timeWindowMs = None, maxDepth = None\<rparr>
       = (agentReady\<lparr>requests := sent agentFinal\<rparr>, Inr [agentResult])
   \<and> correlateExecutions agentReady ''100'' \<lparr>timeWindowMs = None, maxDepth = Some 0\<rparr>
       = (agentReady\<lparr>requests := requests agentReady @ [GetExecution ''100'']\<rparr>, Inr [])"
proof -
  have ch: "chain ''100'' [agentResult]" "set [agentResult] \<subseteq> set (results agentFinal)"
    by (simp_all add: agentResult_def agentFinal_def)
  note t = depth_bound
    [where md = 5 and d = 5 and c = agentReady and tw = 30000 and e = agentRoot and p = "''100''"
       and s = agentFinal and root = "''100''" and s' = agentFinal and failed = None
       and ch = "[agentResult]" and q = "''100''"
       and opts = "\<lparr>timeWindowMs = None, maxDepth = None\<rparr>"
       and c' = "agentReady\<lparr>requests := sent agentFinal\<rparr>" and rs = "[agentResult]"
       and ?c0.0 = "agentReady\<lparr>requests := requests agentReady @ [GetExecution ''100'']\<rparr>"
       and ?rs0.0 = "[]"]
  from t have 1: "findCorrelatedExecutions agentReady 30000 5 5 agentRoot ''100'' agentFinal
                    = (agentFinal, None)"
    by simp
  from t agent_search_final ch have 2: "int (length [agentResult]) \<le> 5"
    by simp
  from 1 2 ch agent_search_final agent_correlate agent_correlate_zero show ?thesis
    by blast
qed

section \<open>Failures of the data source\<close>

lemma faithful_Nil: "faithful a [] None" "raisedLocally err \<Longrightarrow> faithful a [] (Some err)"
  by (simp_all add: faithful_def)

lemma faithful_append:
  "list_all (\<lambda>q. answer a q = None) new1 \<Longrightarrow> faithful a new2 failed \<Longrightarrow> faithful a (new1 @ new2) failed"
  by (cases failed) (auto simp: faithful_def butlast_append)

lemma faithful_single: "faithful a [q] (answer a q)"
  by (cases "answer a q") (simp_all add: faithful_def)

lemma reports_find: "reports (client c) s (findCorrelatedExecutions c tw md d e p s)"
proof (rule search_rule [where Q = "\<lambda>d p. reports (client c)"])
  fix s show "reports (client c) s (s, None)"
    by (simp add: reports_def faithful_Nil)
next
  fix s s1 r assume "reports (client c) s (s1, None)" "reports (client c) s1 r"
  then obtain new1 new2 where "sent s1 = sent s @ new1" "list_all (\<lambda>q. answer (client c) q = None) new1"
    "sent (fst r) = sent s1 @ new2" "faithful (client c) new2 (snd r)"
    by (auto simp: reports_def faithful_def)
  then show "reports (client c) s r"
    unfolding reports_def by (intro exI [of _ "new1 @ new2"]) (simp add: faithful_append)
next
  fix s show "reports (client c) s (s, Some RangeError)" "reports (client c) s (s, Some TypeError)"
    by (simp_all add: reports_def faithful_Nil)
next
  fix s w n
  have "faithful (client c) [ListExecutions w n] (answer (client c) (ListExecutions w n))"
    by (rule faithful_single)
  then show "reports (client c) s (s\<lparr>sent := sent s @ [ListExecutions w n]\<rparr>,
          case executionsOf (client c) w n of Inl err \<Rightarrow> Some err | Inr es \<Rightarrow> None)"
    by (simp add: reports_def failureOf_def)
next
  fix s cand sc r and p :: string
  assume "reports (client c) (accept cand p sc s) r"
  then show "reports (client c) s r"
    by (simp add: reports_def accept_def)
qed

lemma search_reports:
  assumes "search c root tw md = (s, failed)"
  shows "\<exists>new. sent s = requests c @ new \<and> faithful (client c) new failed"
proof (cases "validateId root ''Execution ID''")
  case (Some err)
  then have "raisedLocally err"
    by (auto simp: validateId_def split: if_splits)
  moreover from assms Some have "sent s = requests c" "failed = Some err"
    by (auto simp: search_def getExecution_def)
  ultimately show ?thesis
    by (simp add: faithful_Nil)
next
  case None
  show ?thesis
  proof (cases "executionOf (client c) root")
    case (Inl err)
    with assms None have "sent s = requests c @ [GetExecution root]" "failed = Some err"
      by (auto simp: search_def getExecution_def)
    moreover have "faithful (client c) [GetExecution root] (Some err)"
      using faithful_single [of "client c" "GetExecution root"] Inl by (simp add: failureOf_def)
    ultimately show ?thesis by simp
  next
    case (Inr e)
    let ?s0 = "\<lparr>results = [], visited = {root}, sent = requests c @ [GetExecution root]\<rparr>"
    from assms None Inr have r: "(s, failed) = findCorrelatedExecutions c tw md 0 e root ?s0"
      by (simp add: search_def getExecution_def)
    from reports_find [of c ?s0 tw md 0 e root] r obtain new where
      new: "sent s = (requests c @ [GetExecution root]) @ new" "faithful (client c) new failed"
      unfolding reports_def by (metis fst_conv snd_conv search_state.select_convs(3))
    have "list_all (\<lambda>q. answer (client c) q = None) [GetExecution root]"
      using Inr by (simp add: failureOf_def)
    from faithful_append [OF this new(2)] new(1) show ?thesis
      by (intro exI [of _ "[GetExecution root] @ new"]) simp
  qed
qed

lemma webhookPathsFrom_error: "webhookPathsFrom nodes acc = Inl err \<Longrightarrow> err = TypeError"
  by (induction nodes acc rule: webhookPathsFrom.induct)
     (auto split: if_splits option.splits json.splits)

lemma initWorkflow_reports:
  assumes "initWorkflow w c = (c1, failed)"
  shows "\<exists>new. requests c1 = requests c @ new \<and> faithful (client c) new failed \<and> client c1 = client c"
proof (cases "validateId (w_id w) ''Workflow ID''")
  case (Some err)
  then have "raisedLocally err"
    by (auto simp: validateId_def split: if_splits)
  moreover from assms Some have "c1 = c" "failed = Some err"
    by (auto simp: initWorkflow_def getWorkflow_def)
  ultimately show ?thesis
    by (simp add: faithful_Nil)
next
  case None
  show ?thesis
  proof (cases "workflowOf (client c) (w_id w)")
    case (Inl err)
    with assms None have "requests c1 = requests c @ [GetWorkflow (w_id w)]" "failed = Some err"
      "client c1 = client c"
      by (auto simp: initWorkflow_def getWorkflow_def)
    moreover have "faithful (client c) [GetWorkflow (w_id w)] (Some err)"
      using faithful_single [of "client c" "GetWorkflow (w_id w)"] Inl by (simp add: failureOf_def)
    ultimately show ?thesis by simp
  next
    case (Inr full)
    have ok: "list_all (\<lambda>q. answer (client c) q = None) [GetWorkflow (w_id w)]"
      using Inr by (simp add: failureOf_def)
    show ?thesis
    proof (cases "extractWebhookPaths full")
      case (Inl err)
      then have "err = TypeError"
        by (auto simp: extractWebhookPaths_def split: option.splits dest: webhookPathsFrom_error)
      with assms None Inr Inl ok show ?thesis
        by (auto simp: initWorkflow_def getWorkflow_def Let_def faithful_def)
    next
      case Inr2: (Inr webhooks)
      with assms None Inr ok show ?thesis
        by (auto simp: initWorkflow_def getWorkflow_def Let_def faithful_def)
    qed
  qed
qed

lemma initWorkflows_reports:
  "initWorkflows ws c = (c1, failed) \<Longrightarrow>
   \<exists>new. requests c1 = requests c @ new \<and> faithful (client c) new failed \<and> client c1 = client c"
proof (induction ws arbitrary: c)
  case Nil
  then show ?case by (simp add: faithful_Nil)
next
  case (Cons w ws)
  obtain c' f where step: "initWorkflow w c = (c', f)" by (cases "initWorkflow w c")
  from initWorkflow_reports [OF step] obtain new1 where
    n1: "requests c' = requests c @ new1" "faithful (client c) new1 f" "client c' = client c"
    by blast
  show ?case
  proof (cases f)
    case (Some err)
    with step Cons.prems n1 show ?thesis by auto
  next
    case None
    with step Cons.prems have "initWorkflows ws c' = (c1, failed)" by simp
    from Cons.IH [OF this] obtain new2 where
      n2: "requests c1 = requests c' @ new2" "faithful (client c') new2 failed" "client c1 = client c'"
      by blast
    from n1(2) None have "list_all (\<lambda>q. answer (client c) q = None) new1"
      by (simp add: faithful_def)
    from faithful_append [OF this] n2 n1 show ?thesis
      by (intro exI [of _ "new1 @ new2"]) simp
  qed
qed

lemma initialize_reports:
  assumes "initialize c = (c1, failed)"
  shows "\<exists>new. requests c1 = requests c @ new \<and> faithful (client c) new failed \<and> client c1 = client c"
proof (cases "workflowsOf (client c)")
  case (Inl err)
  with assms have "requests c1 = requests c @ [ListWorkflows]" "failed = Some err" "client c1 = client c"
    by (auto simp: initialize_def listWorkflows_def)
  moreover have "faithful (client c) [ListWorkflows] (Some err)"
    using faithful_single [of "client c" ListWorkflows] Inl by (simp add: failureOf_def)
  ultimately show ?thesis by simp
next
  case (Inr ws)
  with assms have "initWorkflows ws (c\<lparr>requests := requests c @ [ListWorkflows]\<rparr>) = (c1, failed)"
    by (simp add: initialize_def listWorkflows_def)
  from initWorkflows_reports [OF this] obtain new where
    n: "requests c1 = (requests c @ [ListWorkflows]) @ new" "faithful (client c) new failed"
      "client c1 = client c"
    by auto
  have "list_all (\<lambda>q. answer (client c) q = None) [ListWorkflows]"
    using Inr by (simp add: failureOf_def)
  from faithful_append [OF this n(2)] n(1,3) show ?thesis
    by (intro exI [of _ "[ListWorkflows] @ new"]) simp
qed

lemma correlate_reports:
  assumes "correlateExecutions c root opts = (c', out)"
  shows "\<exists>new. requests c' = requests c @ new \<and> faithful (client c) new (failureOf out)
           \<and> client c' = client c"
proof -
  let ?tw = "case timeWindowMs opts of None \<Rightarrow> 30000 | Some t \<Rightarrow> t"
  let ?md = "case maxDepth opts of None \<Rightarrow> 5 | Some d \<Rightarrow> d"
  obtain c1 f where i: "(if length (webhookMappings c) = 0 then initialize c else (c, None)) = (c1, f)"
    by (cases "if length (webhookMappings c) = 0 then initialize c else (c, None)")
  have r1: "\<exists>new. requests c1 = requests c @ new \<and> faithful (client c) new f \<and> client c1 = client c"
  proof (cases "length (webhookMappings c) = 0")
    case True
    with i initialize_reports show ?thesis by simp
  next
    case False
    with i show ?thesis by (auto simp: faithful_Nil)
  qed
  then obtain new1 where n1: "requests c1 = requests c @ new1" "faithful (client c) new1 f"
    "client c1 = client c"
    by blast
  show ?thesis
  proof (cases f)
    case (Some err)
    with assms i have "c' = c1" "out = Inl err"
      by (simp_all add: correlateExecutions_def Let_def)
    with n1 Some show ?thesis by (auto simp: failureOf_def)
  next
    case None
    obtain s failed where s: "search c1 root ?tw ?md = (s, failed)"
      by (cases "search c1 root ?tw ?md")
    from search_reports [OF s] n1(3) obtain new2 where
      n2: "sent s = requests c1 @ new2" "faithful (client c) new2 failed"
      by auto
    from assms i None s have c': "c' = c1\<lparr>requests := sent s\<rparr>" "failureOf out = failed"
      by (auto simp: correlateExecutions_def Let_def failureOf_def split: option.splits)
    from n1(2) None have "list_all (\<lambda>q. answer (client c) q = None) new1"
      by (simp add: faithful_def)
    from faithful_append [OF this n2(2)] n1 n2(1) c' show ?thesis
      by (intro exI [of _ "new1 @ new2"]) simp
  qed
qed

lemma faithful_failed_request:
  assumes "faithful a new failed" "q \<in> set new" "answer a q = Some err"
  shows "failed = Some err \<and> last new = q \<and> q \<notin> set (butlast new)"
proof (cases failed)
  case None
  with assms show ?thesis by (auto simp: faithful_def list_all_iff)
next
  case (Some err')
  from assms(2) have ne: "new \<noteq> []" by auto
  from assms(2,3) have "\<not> list_all (\<lambda>q. answer a q = None) new"
    by (auto simp: list_all_iff)
  with assms(1) Some have l: "list_all (\<lambda>q. answer a q = None) (butlast new)"
    "answer a (last new) = Some err'"
    by (auto simp: faithful_def)
  from l(1) assms(3) have nb: "q \<notin> set (butlast new)"
    by (auto simp: list_all_iff)
  have "set new = set (butlast new @ [last new])"
    using ne by simp
  then have "set new = set (butlast new) \<union> {last new}"
    by simp
  with assms(2) nb have "q = last new"
    by blast
  with l(2) assms(3) Some nb show ?thesis by simp
qed

text \<open>
  Claim C8. All requests of a call of \<open>correlateExecutions\<close> are appended to the log; if the
  platform answers one of them with a failure, the call ends with exactly that failure, the
  failing request is the last one sent and was sent once (nothing is caught, nothing is
  retried); when the call returns a list, no request has failed. A search that throws makes
  \<open>correlateExecutions\<close> throw the same exception, whatever results the search had recorded.
  An HTTP call that resolves to no mapping leaves the state as it is, and an execution
  without run data yields no calls and an empty context, both without an exception.
\<close>

theorem failures_propagate:
  "(correlateExecutions c root opts = (c', out) \<longrightarrow>
      (\<exists>new. requests c' = requests c @ new
         \<and> (\<forall>q err. q \<in> set new \<and> answer (client c) q = Some err \<longrightarrow>
               out = Inl err \<and> last new = q \<and> q \<notin> set (butlast new))
         \<and> (\<forall>rs. out = Inr rs \<longrightarrow> list_all (\<lambda>q. answer (client c) q = None) new)))
   \<and> (webhookMappings c \<noteq> [] \<and> search c root tw md = (s, Some err) \<longrightarrow>
        correlateExecutions c root \<lparr>timeWindowMs = Some tw, maxDepth = Some md\<rparr>
          = (c\<lparr>requests := sent s\<rparr>, Inl err))
   \<and> (webhookMappings c0 = [] \<and> initialize c0 = (c1, None)
        \<and> search c1 root1 tw md = (s1, Some err1) \<longrightarrow>
        correlateExecutions c0 root1 \<lparr>timeWindowMs = Some tw, maxDepth = Some md\<rparr>
          = (c1\<lparr>requests := sent s1\<rparr>, Inl err1))
   \<and> (findWorkflowByWebhook c (c_url call) = Inr None \<longrightarrow>
        webhookCall c recurse e p execStart tw uc call s0 = (s0, None))
   \<and> (e_runData e0 = None \<longrightarrow> extractHttpCalls e0 = [] \<and> extractUserContext e0 = noContext)"
proof (intro conjI impI)
  assume a: "correlateExecutions c root opts = (c', out)"
  from correlate_reports [OF a] obtain new where
    n: "requests c' = requests c @ new" "faithful (client c) new (failureOf out)"
    by blast
  have "out = Inl err \<and> last new = q \<and> q \<notin> set (butlast new)"
    if "q \<in> set new \<and> answer (client c) q = Some err" for q err
  proof -
    from faithful_failed_request [OF n(2), of q err] that
    have "failureOf out = Some err" "last new = q" "q \<notin> set (butlast new)"
      by simp_all
    then show ?thesis
      by (cases out) (simp_all add: failureOf_def)
  qed
  moreover have "list_all (\<lambda>q. answer (client c) q = None) new" if "out = Inr rs" for rs
    using n(2) that by (simp add: faithful_def failureOf_def)
  ultimately show "\<exists>new. requests c' = requests c @ new
         \<and> (\<forall>q err. q \<in> set new \<and> answer (client c) q = Some err \<longrightarrow>
               out = Inl err \<and> last new = q \<and> q \<notin> set (butlast new))
         \<and> (\<forall>rs. out = Inr rs \<longrightarrow> list_all (\<lambda>q. answer (client c) q = None) new)"
    using n(1) by blast
next
  assume "webhookMappings c \<noteq> [] \<and> search c root tw md = (s, Some err)"
  then show "correlateExecutions c root \<lparr>timeWindowMs = Some tw, maxDepth = Some md\<rparr>
          = (c\<lparr>requests := sent s\<rparr>, Inl err)"
    by (simp add: correlateExecutions_def)
next
  assume "webhookMappings c0 = [] \<and> initialize c0 = (c1, None)
        \<and> search c1 root1 tw md = (s1, Some err1)"
  then show "correlateExecutions c0 root1 \<lparr>timeWindowMs = Some tw, maxDepth = Some md\<rparr>
          = (c1\<lparr>requests := sent s1\<rparr>, Inl err1)"
    by (simp add: correlateExecutions_def)
next
  assume "findWorkflowByWebhook c (c_url call) = Inr None"
  then show "webhookCall c recurse e p execStart tw uc call s0 = (s0, None)"
    by (simp add: webhookCall_def)
next
  assume "e_runData e0 = None"
  then show "extractHttpCalls e0 = []" and "extractUserContext e0 = noContext"
    by (simp_all add: extractHttpCalls_def extractUserContext_def)
qed

lemma invalid_root:
  "search agentReady ''../1'' 30000 5
     = (\<lparr>results = [], visited = {''../1''}, sent = requests agentReady\<rparr>,
        Some (InvalidId ''Invalid Execution ID: contains disallowed characters. Only alphanumeric, hyphens, and underscores are permitted.''))"
  by (simp add: search_def getExecution_def validateId_def idChar_def)

lemma unknown_webhook:
  "findWorkflowByWebhook agentReady (c_url (agentCall\<lparr>c_url := JStr ''/x''\<rparr>)) = Inr None"
  by (simp add: findWorkflowByWebhook_def pathOf_def agentReady_fields urlPaths_def
      normalizePath_def stripWebhook_def stripSlash_def matchesPath_def jsIncludes_def
      sublist_code)

theorem failures_propagate_witness:
  "correlateExecutions (newCorrelator brokenApi urlPaths) ''1''
       \<lparr>timeWindowMs = Some 30000, maxDepth = Some 5\<rparr>
     = ((loopCorrelator brokenApi)\<lparr>requests :=
            [ListWorkflows, GetWorkflow ''WA'', GetWorkflow ''WB'', GetExecution ''1'',
             ListExecutions ''WB'' 5, ListExecutions ''WA'' 5]\<rparr>,
        Inl (ApiError ''502''))
   \<and> answer brokenApi (ListExecutions ''WA'' 5) = Some (ApiError ''502'')
   \<and> ListExecutions ''WA'' 5
       \<notin> set (butlast [ListWorkflows, GetWorkflow ''WA'', GetWorkflow ''WB'', GetExecution ''1'',
                         ListExecutions ''WB'' 5, ListExecutions ''WA'' 5])
   \<and> results (fst (search (loopCorrelator brokenApi) ''1'' 30000 5)) = [loopResult ''2'' ''WB'' ''1'']
   \<and> correlateExecutions agentReady ''../1'' \<lparr>timeWindowMs = Some 30000, maxDepth = Some 5\<rparr>
     = (agentReady, Inl (InvalidId ''Invalid Execution ID: contains disallowed characters. Only alphanumeric, hyphens, and underscores are permitted.''))
   \<and> webhookCall agentReady (\<lambda>candidate ident s. (s, Some TypeError)) agentRoot ''100'' 1000000 30000
        (extractUserContext agentRoot) (agentCall\<lparr>c_url := JStr ''/x''\<rparr>) agentFinal
     = (agentFinal, None)
   \<and> extractHttpCalls ctxDemo = [] \<and> extractUserContext ctxDemo = noContext"
proof -
  let ?log = "[ListWorkflows, GetWorkflow ''WA'', GetWorkflow ''WB'', GetExecution ''1'',
               ListExecutions ''WB'' 5, ListExecutions ''WA'' 5]"
  let ?s1 = "\<lparr>results = [loopResult ''2'' ''WB'' ''1''], visited = {''2'', ''1''}, sent = ?log\<rparr>"
  let ?s = "\<lparr>results = [], visited = {''../1''}, sent = requests agentReady\<rparr>"
  note t = failures_propagate
    [where c = agentReady and root = "''../1''" and tw = 30000 and md = 5 and s = ?s
       and err = "InvalidId ''Invalid Execution ID: contains disallowed characters. Only alphanumeric, hyphens, and underscores are permitted.''"
       and ?c0.0 = "newCorrelator brokenApi urlPaths" and ?c1.0 = "loopCorrelator brokenApi"
       and ?root1.0 = "''1''" and ?s1.0 = ?s1 and ?err1.0 = "ApiError ''502''"
       and call = "agentCall\<lparr>c_url := JStr ''/x''\<rparr>" and ?s0.0 = agentFinal
       and recurse = "\<lambda>candidate ident s. (s, Some TypeError)" and e = agentRoot
       and p = "''100''" and execStart = 1000000 and uc = "extractUserContext agentRoot"
       and ?e0.0 = ctxDemo]
  have i: "webhookMappings (newCorrelator brokenApi urlPaths) = []
           \<and> initialize (newCorrelator brokenApi urlPaths) = (loopCorrelator brokenApi, None)
           \<and> search (loopCorrelator brokenApi) ''1'' 30000 5 = (?s1, Some (ApiError ''502''))"
    by (simp add: broken_search broken_initialize fresh_mappings)
  from t i have 1: "correlateExecutions (newCorrelator brokenApi urlPaths) ''1''
       \<lparr>timeWindowMs = Some 30000, maxDepth = Some 5\<rparr>
     = ((loopCorrelator brokenApi)\<lparr>requests := ?log\<rparr>, Inl (ApiError ''502''))"
    by simp
  have 2: "answer brokenApi (ListExecutions ''WA'' 5) = Some (ApiError ''502'')"
    by (simp add: loop_listings failureOf_def)
  have 3: "results (fst (search (loopCorrelator brokenApi) ''1'' 30000 5)) = [loopResult ''2'' ''WB'' ''1'']"
    by (simp add: broken_search)
  have "webhookMappings agentReady \<noteq> [] \<and> search agentReady ''../1'' 30000 5
          = (?s, Some (InvalidId ''Invalid Execution ID: contains disallowed characters. Only alphanumeric, hyphens, and underscores are permitted.''))"
    by (simp add: agentReady_fields invalid_root)
  with t have 4: "correlateExecutions agentReady ''../1'' \<lparr>timeWindowMs = Some 30000, maxDepth = Some 5\<rparr>
     = (agentReady, Inl (InvalidId ''Invalid Execution ID: contains disallowed characters. Only alphanumeric, hyphens, and underscores are permitted.''))"
    by simp
  from t unknown_webhook have 5:
    "webhookCall agentReady (\<lambda>candidate ident s. (s, Some TypeError)) agentRoot ''100'' 1000000 30000
        (extractUserContext agentRoot) (agentCall\<lparr>c_url := JStr ''/x''\<rparr>) agentFinal
     = (agentFinal, None)"
    by blast
  have "e_runData ctxDemo = None"
    by (simp add: ctxDemo_def)
  with t have 6: "extractHttpCalls ctxDemo = [] \<and> extractUserContext ctxDemo = noContext"
    by blast
  note u = failures_propagate
    [where c = "newCorrelator brokenApi urlPaths" and root = "''1''"
       and opts = "\<lparr>timeWindowMs = Some 30000, maxDepth = Some 5\<rparr>"
       and c' = "(loopCorrelator brokenApi)\<lparr>requests := ?log\<rparr>"
       and out = "Inl (ApiError ''502'')"]
  have imp: "\<exists>new. requests ((loopCorrelator brokenApi)\<lparr>requests := ?log\<rparr>)
               = requests (newCorrelator brokenApi urlPaths) @ new
         \<and> (\<forall>q err. q \<in> set new \<and> answer (client (newCorrelator brokenApi urlPaths)) q = Some err \<longrightarrow>
               (Inl (ApiError ''502'') :: error + correlation_result list) = Inl err
               \<and> last new = q \<and> q \<notin> set (butlast new))
         \<and> (\<forall>rs. (Inl (ApiError ''502'') :: error + correlation_result list) = Inr rs \<longrightarrow>
               list_all (\<lambda>q. answer (client (newCorrelator brokenApi urlPaths)) q = None) new)"
    using conjunct1 [OF u] 1 by (rule mp)
  then obtain new where new: "requests ((loopCorrelator brokenApi)\<lparr>requests := ?log\<rparr>)
         = requests (newCorrelator brokenApi urlPaths) @ new"
    "\<And>q err. q \<in> set new \<and> answer (client (newCorrelator brokenApi urlPaths)) q = Some err \<Longrightarrow>
        q \<notin> set (butlast new)"
    by blast
  from new(1) have n: "new = ?log"
    by (simp add: newCorrelator_def)
  have cl: "client (newCorrelator brokenApi urlPaths) = brokenApi"
    by (simp add: newCorrelator_def)
  have "ListExecutions ''WA'' 5 \<in> set new"
    by (simp add: n)
  with new(2) [of "ListExecutions ''WA'' 5" "ApiError ''502''"] 2 cl
  have "ListExecutions ''WA'' 5 \<notin> set (butlast new)"
    by simp
  then have 7: "ListExecutions ''WA'' 5 \<notin> set (butlast ?log)"
    using n by simp
  from 1 2 3 4 5 6 7 show ?thesis
    by blast
qed

section \<open>Termination\<close>

text \<open>
  Claim C4. The recursion of \<open>findCorrelatedExecutions\<close> is well-founded on every input (its
  depth increases towards \<open>maxDepth\<close>), so \<open>correlateExecutions\<close> returns, a failure or a
  finite list, for every data source, and as a function of the data source its result is
  determined. In the scenario of two workflows whose executions qualify as candidates of one
  another, the search returns two results: the execution of the other workflow below the
  root, and the second execution of the root's workflow below that one; the root is not
  entered again.
\<close>

theorem search_terminates:
  "All findCorrelatedExecutions_dom
   \<and> (\<exists>c' out. correlateExecutions c rootExecutionId opts = (c', out))
   \<and> d0_5 < confidence (subWorkflowScore 5000 (loopExecution ''2'' ''WB'')
                          (extractUserContext (loopExecution ''1'' ''WA'')))
   \<and> d0_5 < confidence (subWorkflowScore 5000 (loopExecution ''1'' ''WA'')
                          (extractUserContext (loopExecution ''2'' ''WB'')))
   \<and> correlateExecutions (newCorrelator loopApi urlPaths) ''1''
        \<lparr>timeWindowMs = None, maxDepth = None\<rparr>
       = ((loopCorrelator loopApi)\<lparr>requests :=
              [ListWorkflows, GetWorkflow ''WA'', GetWorkflow ''WB'', GetExecution ''1'',
               ListExecutions ''WB'' 5, ListExecutions ''WA'' 5, ListExecutions ''WB'' 5]\<rparr>,
          Inr [loopResult ''2'' ''WB'' ''1'', loopResult ''3'' ''WA'' ''2''])"
proof (intro conjI)
  show "All findCorrelatedExecutions_dom"
    by (relation "measure (\<lambda>(c, timeWindowMs, maxDepth, currentDepth, execution, parentId, s).
                             nat (maxDepth - currentDepth))") auto
next
  show "\<exists>c' out. correlateExecutions c rootExecutionId opts = (c', out)"
    by (cases "correlateExecutions c rootExecutionId opts") blast
next
  show "d0_5 < confidence (subWorkflowScore 5000 (loopExecution ''2'' ''WB'')
                          (extractUserContext (loopExecution ''1'' ''WA'')))"
    and "d0_5 < confidence (subWorkflowScore 5000 (loopExecution ''1'' ''WA'')
                          (extractUserContext (loopExecution ''2'' ''WB'')))"
    by (simp_all add: loop_score d0_5_def)
next
  show "correlateExecutions (newCorrelator loopApi urlPaths) ''1''
        \<lparr>timeWindowMs = None, maxDepth = None\<rparr>
       = ((loopCorrelator loopApi)\<lparr>requests :=
              [ListWorkflows, GetWorkflow ''WA'', GetWorkflow ''WB'', GetExecution ''1'',
               ListExecutions ''WB'' 5, ListExecutions ''WA'' 5, ListExecutions ''WB'' 5]\<rparr>,
          Inr [loopResult ''2'' ''WB'' ''1'', loopResult ''3'' ''WA'' ''2''])"
    by (rule loop_correlate)
qed

section \<open>Initialising twice\<close>

lemma find_sendsExecutionRequests:
  "sendsExecutionRequests s (findCorrelatedExecutions c tw md d e p s)"
proof (rule search_rule [where Q = "\<lambda>d p. sendsExecutionRequests"])
  fix s s1 :: search_state and r
  assume "sendsExecutionRequests s (s1, None)" "sendsExecutionRequests s1 r"
  then obtain new1 new2 where "sent s1 = sent s @ new1" "list_all isExecutionRequest new1"
    "sent (fst r) = sent s1 @ new2" "list_all isExecutionRequest new2"
    by (auto simp: sendsExecutionRequests_def)
  then show "sendsExecutionRequests s r"
    unfolding sendsExecutionRequests_def by (intro exI [of _ "new1 @ new2"]) simp
qed (simp_all add: sendsExecutionRequests_def accept_def)

lemma search_sendsExecutionRequests:
  assumes "search c root tw md = (s, failed)"
  shows "\<exists>new. sent s = requests c @ new \<and> list_all isExecutionRequest new"
proof -
  from search_start [OF assms] show ?thesis
  proof (elim disjE exE conjE)
    fix err log
    assume "getExecution (client c) root (requests c) = (log, Inl err)"
      "s = \<lparr>results = [], visited = {root}, sent = log\<rparr>"
    then show ?thesis
      by (auto simp: getExecution_def split: option.splits)
  next
    fix e log
    assume g: "getExecution (client c) root (requests c) = (log, Inr e)"
      and r: "(s, failed) = findCorrelatedExecutions c tw md 0 e root
                           \<lparr>results = [], visited = {root}, sent = log\<rparr>"
    from g have log: "log = requests c @ [GetExecution root]"
      by (auto simp: getExecution_def split: option.splits)
    from find_sendsExecutionRequests [of "\<lparr>results = [], visited = {root}, sent = log\<rparr>" c tw md 0 e root] r
    obtain new where "sent s = log @ new" "list_all isExecutionRequest new"
      unfolding sendsExecutionRequests_def by (metis fst_conv search_state.select_convs(3))
    with log show ?thesis
      by (intro exI [of _ "[GetExecution root] @ new"]) simp
  qed
qed

lemma initialize_again:
  assumes "initialize c = (c1, None)"
  shows "\<exists>c2. initialize c1 = (c2, None)
           \<and> webhookMappings c2
               = webhookMappings c1 @ drop (length (webhookMappings c)) (webhookMappings c1)
           \<and> workflowCache c2 = workflowCache c1"
proof -
  from assms obtain ws where ws: "workflowsOf (client c) = Inr ws"
    by (cases "workflowsOf (client c)") (auto simp: initialize_def listWorkflows_def)
  let ?c = "c\<lparr>requests := requests c @ [ListWorkflows]\<rparr>"
  from assms ws have "initWorkflows ws ?c = (c1, None)"
    by (simp add: initialize_def listWorkflows_def)
  then have ok: "list_all (indexable (client c)) ws"
    and c1: "c1 = ?c\<lparr>requests := requests ?c @ map (\<lambda>w. GetWorkflow (w_id w)) ws,
            workflowCache := fold (cacheStep (client c)) ws (workflowCache c),
            webhookMappings := webhookMappings c @ concat (map (mappingsFor (client c)) ws)\<rparr>"
    by (simp_all add: initWorkflows_None)
  let ?d = "c1\<lparr>requests := requests c1 @ [ListWorkflows]\<rparr>"
  define c2 where "c2 = ?d\<lparr>requests := requests ?d @ map (\<lambda>w. GetWorkflow (w_id w)) ws,
            workflowCache := fold (cacheStep (client c)) ws (workflowCache c1),
            webhookMappings := webhookMappings c1 @ concat (map (mappingsFor (client c)) ws)\<rparr>"
  have cl: "client c1 = client c" by (simp add: c1)
  have "initWorkflows ws ?d = (c2, None)"
    using ok by (simp add: initWorkflows_None cl c2_def)
  with ws cl have "initialize c1 = (c2, None)"
    by (simp add: initialize_def listWorkflows_def)
  moreover have "workflowCache c2 = workflowCache c1"
    by (simp add: c2_def c1 cache_settled)
  moreover have "webhookMappings c2
               = webhookMappings c1 @ drop (length (webhookMappings c)) (webhookMappings c1)"
    by (simp add: c2_def c1)
  ultimately show ?thesis by blast
qed

lemma no_webhooks_initialize:
  assumes ws: "workflowsOf (client c) = Inr ws"
    and none: "list_all (\<lambda>w. validateId (w_id w) ''Workflow ID'' = None
                 \<and> (\<exists>full. workflowOf (client c) (w_id w) = Inr full
                       \<and> extractWebhookPaths full = Inr [])) ws"
  shows "initialize c
           = (c\<lparr>requests := requests c @ ListWorkflows # map (\<lambda>w. GetWorkflow (w_id w)) ws,
                 workflowCache := fold (cacheStep (client c)) ws (workflowCache c)\<rparr>, None)"
proof -
  have i: "indexable (client c) w \<and> mappingsFor (client c) w = []" if "w \<in> set ws" for w
    using none that by (auto simp: list_all_iff indexable_def mappingsFor_def fullOf_def)
  then have "list_all (indexable (client c)) ws" "concat (map (mappingsFor (client c)) ws) = []"
    by (auto simp: list_all_iff)
  then have "initWorkflows ws (c\<lparr>requests := requests c @ [ListWorkflows]\<rparr>)
               = (c\<lparr>requests := requests c @ ListWorkflows # map (\<lambda>w. GetWorkflow (w_id w)) ws,
                 workflowCache := fold (cacheStep (client c)) ws (workflowCache c)\<rparr>, None)"
    by (simp add: initWorkflows_None)
  with ws show ?thesis
    by (simp add: initialize_def listWorkflows_def)
qed

text \<open>
  Claim C10. After a first successful \<open>initialize\<close> of a correlator with an empty index, a
  second one succeeds too, appends every mapping a second time (the index doubles in length)
  and leaves the workflow cache as it is. \<open>correlateExecutions\<close> on a non-empty index does not
  initialise: index and cache stay, and it sends requests about executions only. On an empty
  index, when no listed workflow declares a webhook path, it lists the workflows and fetches
  each of them before the search, and leaves the index empty, so the next search does the
  same.
\<close>

theorem initialize_not_idempotent:
  "(webhookMappings c = [] \<and> initialize c = (c1, None) \<longrightarrow>
      (\<exists>c2. initialize c1 = (c2, None)
         \<and> webhookMappings c2 = webhookMappings c1 @ webhookMappings c1
         \<and> length (webhookMappings c2) = 2 * length (webhookMappings c1)
         \<and> workflowCache c2 = workflowCache c1))
   \<and> (webhookMappings c0 \<noteq> [] \<and> correlateExecutions c0 root opts = (c', out) \<longrightarrow>
        webhookMappings c' = webhookMappings c0 \<and> workflowCache c' = workflowCache c0
        \<and> (\<exists>new. requests c' = requests c0 @ new \<and> list_all isExecutionRequest new))
   \<and> (webhookMappings c3 = [] \<and> workflowsOf (client c3) = Inr ws
        \<and> list_all (\<lambda>w. validateId (w_id w) ''Workflow ID'' = None
                 \<and> (\<exists>full. workflowOf (client c3) (w_id w) = Inr full
                       \<and> extractWebhookPaths full = Inr [])) ws
        \<and> correlateExecutions c3 root3 opts3 = (c4, out4) \<longrightarrow>
        webhookMappings c4 = [] \<and> client c4 = client c3
        \<and> prefix (requests c3 @ ListWorkflows # map (\<lambda>w. GetWorkflow (w_id w)) ws) (requests c4))"
proof (intro conjI impI)
  assume a: "webhookMappings c = [] \<and> initialize c = (c1, None)"
  with initialize_again [of c c1] obtain c2 where
    "initialize c1 = (c2, None)" "webhookMappings c2 = webhookMappings c1 @ webhookMappings c1"
    "workflowCache c2 = workflowCache c1"
    by auto
  then show "\<exists>c2. initialize c1 = (c2, None)
         \<and> webhookMappings c2 = webhookMappings c1 @ webhookMappings c1
         \<and> length (webhookMappings c2) = 2 * length (webhookMappings c1)
         \<and> workflowCache c2 = workflowCache c1"
    by (intro exI [of _ c2]) simp
next
  assume a: "webhookMappings c0 \<noteq> [] \<and> correlateExecutions c0 root opts = (c', out)"
  let ?tw = "case timeWindowMs opts of None \<Rightarrow> 30000 | Some t \<Rightarrow> t"
  let ?md = "case maxDepth opts of None \<Rightarrow> 5 | Some d \<Rightarrow> d"
  obtain s failed where s: "search c0 root ?tw ?md = (s, failed)"
    by (cases "search c0 root ?tw ?md")
  with a have c': "c' = c0\<lparr>requests := sent s\<rparr>"
    by (auto simp: correlateExecutions_def split: option.splits)
  from search_sendsExecutionRequests [OF s] c'
  show "webhookMappings c' = webhookMappings c0" and "workflowCache c' = workflowCache c0"
    and "\<exists>new. requests c' = requests c0 @ new \<and> list_all isExecutionRequest new"
    by simp_all
next
  assume a: "webhookMappings c3 = [] \<and> workflowsOf (client c3) = Inr ws
        \<and> list_all (\<lambda>w. validateId (w_id w) ''Workflow ID'' = None
                 \<and> (\<exists>full. workflowOf (client c3) (w_id w) = Inr full
                       \<and> extractWebhookPaths full = Inr [])) ws
        \<and> correlateExecutions c3 root3 opts3 = (c4, out4)"
  let ?c1 = "c3\<lparr>requests := requests c3 @ ListWorkflows # map (\<lambda>w. GetWorkflow (w_id w)) ws,
                 workflowCache := fold (cacheStep (client c3)) ws (workflowCache c3)\<rparr>"
  let ?tw = "case timeWindowMs opts3 of None \<Rightarrow> 30000 | Some t \<Rightarrow> t"
  let ?md = "case maxDepth opts3 of None \<Rightarrow> 5 | Some d \<Rightarrow> d"
  from a no_webhooks_initialize [of c3 ws] have i: "initialize c3 = (?c1, None)"
    by blast
  obtain s failed where s: "search ?c1 root3 ?tw ?md = (s, failed)"
    by (cases "search ?c1 root3 ?tw ?md")
  with a i have c4: "c4 = ?c1\<lparr>requests := sent s\<rparr>"
    by (auto simp: correlateExecutions_def split: option.splits)
  from search_sendsExecutionRequests [OF s] obtain new where
    "sent s = requests ?c1 @ new"
    by blast
  with c4 a show "webhookMappings c4 = []" and "client c4 = client c3"
    and "prefix (requests c3 @ ListWorkflows # map (\<lambda>w. GetWorkflow (w_id w)) ws) (requests c4)"
    by simp_all
qed

theorem initialize_not_idempotent_witness:
  "initialize (newCorrelator agentApi urlPaths) = (agentReady, None)
   \<and> length (webhookMappings agentReady) = 1
   \<and> (\<exists>c2. initialize agentReady = (c2, None) \<and> length (webhookMappings c2) = 2
          \<and> workflowCache c2 = workflowCache agentReady)
   \<and> webhookMappings (fst (correlateExecutions agentReady ''100''
                               \<lparr>timeWindowMs = None, maxDepth = None\<rparr>))
       = webhookMappings agentReady
   \<and> webhookMappings (fst (correlateExecutions (loopCorrelator loopApi) ''1''
                               \<lparr>timeWindowMs = None, maxDepth = None\<rparr>)) = []
   \<and> prefix (requests (loopCorrelator loopApi) @ [ListWorkflows, GetWorkflow ''WA'', GetWorkflow ''WB''])
        (requests (fst (correlateExecutions (loopCorrelator loopApi) ''1''
                          \<lparr>timeWindowMs = None, maxDepth = None\<rparr>)))"
proof -
  let ?ws = "[\<lparr>w_id = ''WA'', w_name = ''WA'', w_nodes = None\<rparr>,
              \<lparr>w_id = ''WB'', w_name = ''WB'', w_nodes = None\<rparr>]"
  let ?o = "\<lparr>timeWindowMs = None, maxDepth = None\<rparr>"
  note t = initialize_not_idempotent
    [where c = "newCorrelator agentApi urlPaths" and ?c1.0 = agentReady
       and ?c0.0 = agentReady and root = "''100''" and opts = ?o
       and c' = "fst (correlateExecutions agentReady ''100'' ?o)"
       and out = "snd (correlateExecutions agentReady ''100'' ?o)"
       and ?c3.0 = "loopCorrelator loopApi" and ws = ?ws and ?root3.0 = "''1''" and ?opts3.0 = ?o
       and ?c4.0 = "fst (correlateExecutions (loopCorrelator loopApi) ''1'' ?o)"
       and ?out4.0 = "snd (correlateExecutions (loopCorrelator loopApi) ''1'' ?o)"]
  have l: "length (webhookMappings agentReady) = 1"
    by (simp add: agentReady_fields)
  from t agent_initialize fresh_mappings [of agentApi urlPaths] l
  have 1: "\<exists>c2. initialize agentReady = (c2, None) \<and> length (webhookMappings c2) = 2
          \<and> workflowCache c2 = workflowCache agentReady"
    by auto
  have "webhookMappings agentReady \<noteq> []"
    by (simp add: agentReady_fields)
  with t have 2: "webhookMappings (fst (correlateExecutions agentReady ''100'' ?o))
                    = webhookMappings agentReady"
    by simp
  have h: "webhookMappings (loopCorrelator loopApi) = []
        \<and> workflowsOf (client (loopCorrelator loopApi)) = Inr ?ws
        \<and> list_all (\<lambda>w. validateId (w_id w) ''Workflow ID'' = None
                 \<and> (\<exists>full. workflowOf (client (loopCorrelator loopApi)) (w_id w) = Inr full
                       \<and> extractWebhookPaths full = Inr [])) ?ws"
    by (simp add: loopReady_fields validateId_loop)
       (simp add: loopApi_def loopWorkflow_def extractWebhookPaths_def)
  from t h have 3: "webhookMappings (fst (correlateExecutions (loopCorrelator loopApi) ''1'' ?o)) = []"
    "prefix (requests (loopCorrelator loopApi) @ [ListWorkflows, GetWorkflow ''WA'', GetWorkflow ''WB''])
        (requests (fst (correlateExecutions (loopCorrelator loopApi) ''1'' ?o)))"
    by simp_all
  from agent_initialize l 1 2 3 show ?thesis
    by blast
qed

end
